theory Spec2Isabelle
  imports Main "HOL-Library.Word"
begin

section \<open>The identity cache (internal/users/cache/update.go)\<close>

subsection \<open>Records of the cache\<close>

text \<open>
  UIDs and GIDs are Go \<^verbatim>\<open>uint32\<close> values. The struct declarations are not part of the
  sources at hand; their fields are the ones \<^verbatim>\<open>update.go\<close> reads and writes, completed
  by the entity list of the specification (the six password-aging fields are 32-bit
  integers there). Isabelle records share one name space for their fields, so the fields
  of the group and edge structs carry the struct as a prefix where Go repeats
  \<^verbatim>\<open>Name\<close>, \<^verbatim>\<open>GID\<close> and \<^verbatim>\<open>UID\<close>.
\<close>

type_synonym uint32 = "32 word"

record UserDB =
  Name :: string
  UID :: uint32
  GID :: uint32
  Gecos :: string
  Dir :: string
  Shell :: string
  LastPwdChange :: "32 word"
  MinPwdAge :: "32 word"
  MaxPwdAge :: "32 word"
  PwdWarnPeriod :: "32 word"
  PwdInactivity :: "32 word"
  ExpirationDate :: "32 word"

text \<open>\<^verbatim>\<open>userDB\<close> embeds \<^verbatim>\<open>UserDB\<close> and adds the time of the last login.\<close>

record userDB = UserDB +
  LastLogin :: nat

record GroupDB =
  GroupName :: string
  GroupGID :: uint32

record groupDB =
  groupName :: string
  groupGID :: uint32

record userToGroupsDB =
  userUID :: uint32
  GIDs :: "uint32 list"

record groupToUsersDB =
  groupToUsersGID :: uint32
  UIDs :: "uint32 list"

text \<open>The zero values Go gives to a variable that nothing has been decoded into.\<close>

definition zero_userDB :: userDB where
  "zero_userDB = \<lparr>Name = [], UID = 0, GID = 0, Gecos = [], Dir = [], Shell = [],
     LastPwdChange = 0, MinPwdAge = 0, MaxPwdAge = 0, PwdWarnPeriod = 0,
     PwdInactivity = 0, ExpirationDate = 0, LastLogin = 0\<rparr>"

definition zero_groupDB :: groupDB where
  "zero_groupDB = \<lparr>groupName = [], groupGID = 0\<rparr>"

definition zero_userToGroupsDB :: userToGroupsDB where
  "zero_userToGroupsDB = \<lparr>userUID = 0, GIDs = []\<rparr>"

definition zero_groupToUsersDB :: groupToUsersDB where
  "zero_groupToUsersDB = \<lparr>groupToUsersGID = 0, UIDs = []\<rparr>"

subsection \<open>Errors and log entries\<close>

datatype error =
    NoDataFoundError
  | UnmarshalError
  | UIDInUse
  | GIDInUse string
  | NoBrokerMatching string
  | NoBrokerForSession string
  | InvalidBroker error
  | BrokerFailure string
  | ExampleBrokersFailure string
  | SystemBusFailure string
  | ErrNotExist
  | ReadDirFailure string
  | CouldNotReadBrokersDirectory error
  | CantCreateBrokersDetection error

datatype logLevel = LevelDebug | LevelWarning | LevelError

datatype logArg = S string | U uint32

type_synonym logEntry = "logLevel \<times> string \<times> logArg list"

subsection \<open>Buckets and transactions\<close>

text \<open>
  A bucket maps keys to JSON documents. A document either decodes into the struct the
  bucket holds, or it does not. The keys of the ID buckets are the base-10 renderings of
  the IDs; the rendering is injective, so the model uses the ID itself as the key.
\<close>

datatype 'a cell = Undecodable | Stored 'a

type_synonym ('k, 'a) bucket = "'k \<rightharpoonup> 'a cell"

record cache =
  userByID :: "(uint32, userDB) bucket"
  userByName :: "(string, userDB) bucket"
  groupByID :: "(uint32, groupDB) bucket"
  groupByName :: "(string, groupDB) bucket"
  userToGroups :: "(uint32, userToGroupsDB) bucket"
  groupToUsers :: "(uint32, groupToUsersDB) bucket"
  userToBroker :: "(uint32, string) bucket"
  logged :: "logEntry list"

definition emptyCache :: cache where
  "emptyCache = \<lparr>userByID = Map.empty, userByName = Map.empty, groupByID = Map.empty,
     groupByName = Map.empty, userToGroups = Map.empty, groupToUsers = Map.empty,
     userToBroker = Map.empty, logged = []\<rparr>"

definition logf :: "logLevel \<Rightarrow> string \<Rightarrow> logArg list \<Rightarrow> cache \<Rightarrow> cache" where
  "logf lvl fmt args tx = tx\<lparr>logged := logged tx @ [(lvl, fmt, args)]\<rparr>"

text \<open>
  Modelled from the spec: \<^verbatim>\<open>getFromBucket\<close> is missing from the sources. Its callers
  receive a value and an error, tolerate \<^verbatim>\<open>NoDataFoundError\<close> and then read the
  zero value; every other error is a document that does not decode. The zero value of
  the result type is the first argument.
\<close>

definition getFromBucket :: "'a \<Rightarrow> ('k, 'a) bucket \<Rightarrow> 'k \<Rightarrow> 'a \<times> error option" where
  "getFromBucket zero bucket key =
     (case bucket key of
        None \<Rightarrow> (zero, Some NoDataFoundError)
      | Some Undecodable \<Rightarrow> (zero, Some UnmarshalError)
      | Some (Stored r) \<Rightarrow> (r, None))"

text \<open>
  \<^verbatim>\<open>updateBucket\<close> panics when the value has no JSON encoding or when \<^verbatim>\<open>Put\<close> runs
  outside a read-write transaction. The values are plain structs and every call below
  runs inside \<^verbatim>\<open>Update\<close>, so the model is the plain update of the map.
\<close>

definition updateBucket :: "('k, 'a) bucket \<Rightarrow> 'k \<Rightarrow> 'a \<Rightarrow> ('k, 'a) bucket" where
  "updateBucket bucket key v = bucket(key \<mapsto> Stored v)"

text \<open>
  Modelled from the spec: the write transaction of the store (\<^verbatim>\<open>db.Update\<close>) commits
  every mutation of the function it runs, or, when that function returns an error, none
  of them. What was logged stays logged.
\<close>

definition Update :: "cache \<Rightarrow> (cache \<Rightarrow> error option \<times> cache) \<Rightarrow> error option \<times> cache" where
  "Update c f =
     (case f c of
        (Some err, tx) \<Rightarrow> (Some err, c\<lparr>logged := logged tx\<rparr>)
      | (None, tx) \<Rightarrow> (None, tx))"

subsection \<open>The write path\<close>

definition updateUser :: "cache \<Rightarrow> userDB \<Rightarrow> error option \<times> cache" where
  "updateUser tx userContent =
     (let (existingUser, err) = getFromBucket zero_userDB (userByID tx) (UID userContent) in
      if err \<noteq> None \<and> err \<noteq> Some NoDataFoundError then (err, tx)
      else if Name existingUser \<noteq> [] \<and> Name existingUser \<noteq> Name userContent then
        (Some UIDInUse,
         logf LevelError ''UID for user %q already in use by user %q''
           [S (Name userContent), S (Name existingUser)] tx)
      else
        let (userContent, tx) =
              (if Dir existingUser \<noteq> [] \<and> Dir existingUser \<noteq> Dir userContent then
                 (userContent\<lparr>Dir := Dir existingUser\<rparr>,
                  logf LevelWarning
                    ''User %q already has a homedir. The existing %q one will be kept instead of %q''
                    [S (Name userContent), S (Dir existingUser), S (Dir userContent)] tx)
               else (userContent, tx));
            tx = logf LevelDebug ''Updating entry of user %q (UID: %d)''
                   [S (Name userContent), U (UID userContent)] tx;
            tx = tx\<lparr>userByID := updateBucket (userByID tx) (UID userContent) userContent\<rparr>;
            tx = tx\<lparr>userByName := updateBucket (userByName tx) (Name userContent) userContent\<rparr>
        in (None, tx))"

fun updateGroups :: "cache \<Rightarrow> GroupDB list \<Rightarrow> error option \<times> cache" where
  "updateGroups tx [] = (None, tx)"
| "updateGroups tx (groupContent # groupContents) =
     (let (existingGroup, err) =
            getFromBucket zero_groupDB (groupByID tx) (GroupGID groupContent) in
      if err \<noteq> None \<and> err \<noteq> Some NoDataFoundError then (err, tx)
      else if groupName existingGroup \<noteq> [] \<and> groupName existingGroup \<noteq> GroupName groupContent then
        (Some (GIDInUse (GroupName groupContent)),
         logf LevelError ''GID %d for group %q already in use by group %q''
           [U (GroupGID groupContent), S (GroupName groupContent), S (groupName existingGroup)] tx)
      else
        let tx = tx\<lparr>groupByID := updateBucket (groupByID tx) (GroupGID groupContent)
                       \<lparr>groupName = GroupName groupContent, groupGID = GroupGID groupContent\<rparr>\<rparr>;
            tx = tx\<lparr>groupByName := updateBucket (groupByName tx) (GroupName groupContent)
                       \<lparr>groupName = GroupName groupContent, groupGID = GroupGID groupContent\<rparr>\<rparr>
        in updateGroups tx groupContents)"

text \<open>
  Modelled from the spec: \<^verbatim>\<open>deleteUserFromGroup\<close> is missing from the sources. The
  specification has it load \<^verbatim>\<open>group_to_users[gid]\<close>, remove the uid and write the edge
  back, also when no uid is left; the group records are not touched. A missing edge is
  read as the zero value, as everywhere in this file.
\<close>

definition deleteUserFromGroup :: "cache \<Rightarrow> uint32 \<Rightarrow> uint32 \<Rightarrow> error option \<times> cache" where
  "deleteUserFromGroup tx uid gid =
     (let (grpToUsers, err) = getFromBucket zero_groupToUsersDB (groupToUsers tx) gid in
      if err \<noteq> None \<and> err \<noteq> Some NoDataFoundError then (err, tx)
      else
        let grpToUsers = grpToUsers\<lparr>UIDs := filter (\<lambda>id. id \<noteq> uid) (UIDs grpToUsers)\<rparr>
        in (None, tx\<lparr>groupToUsers := updateBucket (groupToUsers tx) gid grpToUsers\<rparr>))"

text \<open>The first loop of \<^verbatim>\<open>updateUsersAndGroups\<close>; it also collects \<^verbatim>\<open>currentGIDs\<close>.\<close>

fun addUserToGroups ::
  "cache \<Rightarrow> uint32 \<Rightarrow> GroupDB list \<Rightarrow> uint32 list \<Rightarrow> error option \<times> cache \<times> uint32 list" where
  "addUserToGroups tx uid [] currentGIDs = (None, tx, currentGIDs)"
| "addUserToGroups tx uid (groupContent # groupContents) currentGIDs =
     (let currentGIDs = currentGIDs @ [GroupGID groupContent];
          (grpToUsers, err) =
            getFromBucket zero_groupToUsersDB (groupToUsers tx) (GroupGID groupContent) in
      if err \<noteq> None \<and> err \<noteq> Some NoDataFoundError then (err, tx, currentGIDs)
      else
        let grpToUsers = grpToUsers\<lparr>groupToUsersGID := GroupGID groupContent\<rparr>;
            grpToUsers = (if uid \<notin> set (UIDs grpToUsers)
                          then grpToUsers\<lparr>UIDs := UIDs grpToUsers @ [uid]\<rparr> else grpToUsers);
            tx = tx\<lparr>groupToUsers :=
                      updateBucket (groupToUsers tx) (GroupGID groupContent) grpToUsers\<rparr>
        in addUserToGroups tx uid groupContents currentGIDs)"

text \<open>The second loop: the groups the user has left.\<close>

fun removeUserFromGroups ::
  "cache \<Rightarrow> uint32 \<Rightarrow> uint32 list \<Rightarrow> uint32 list \<Rightarrow> error option \<times> cache" where
  "removeUserFromGroups tx uid currentGIDs [] = (None, tx)"
| "removeUserFromGroups tx uid currentGIDs (previousGID # previousGIDs) =
     (if previousGID \<in> set currentGIDs then
        removeUserFromGroups tx uid currentGIDs previousGIDs
      else
        (case deleteUserFromGroup tx uid previousGID of
           (Some err, tx) \<Rightarrow> (Some err, tx)
         | (None, tx) \<Rightarrow> removeUserFromGroups tx uid currentGIDs previousGIDs))"

definition updateUsersAndGroups ::
  "cache \<Rightarrow> uint32 \<Rightarrow> GroupDB list \<Rightarrow> uint32 list \<Rightarrow> error option \<times> cache" where
  "updateUsersAndGroups tx uid groupContents previousGIDs =
     (case addUserToGroups tx uid groupContents [] of
        (Some err, tx, currentGIDs) \<Rightarrow> (Some err, tx)
      | (None, tx, currentGIDs) \<Rightarrow>
          let tx = tx\<lparr>userToGroups := updateBucket (userToGroups tx) uid
                         \<lparr>userUID = uid, GIDs = currentGIDs\<rparr>\<rparr>
          in removeUserFromGroups tx uid currentGIDs previousGIDs)"

text \<open>
  \<^verbatim>\<open>UpdateUserEntry\<close>. The time of the call is an argument. The buckets are created
  when the cache is opened, so \<^verbatim>\<open>getAllBuckets\<close> finds them all. The calls are
  taken one at a time: the lock of the cache and the transactions of the store keep
  concurrent callers from seeing one another's writes.
\<close>

definition UpdateUserEntry ::
  "cache \<Rightarrow> nat \<Rightarrow> UserDB \<Rightarrow> GroupDB list \<Rightarrow> error option \<times> cache" where
  "UpdateUserEntry c now usr groupContents =
     (let userDB = UserDB.extend usr (userDB.fields now) in
      Update c (\<lambda>tx.
        let (previousGroupsForCurrentUser, err) =
              getFromBucket zero_userToGroupsDB (userToGroups tx) (UID userDB) in
        if err \<noteq> None \<and> err \<noteq> Some NoDataFoundError then (err, tx)
        else
          (case updateUser tx userDB of
             (Some err, tx) \<Rightarrow> (Some err, tx)
           | (None, tx) \<Rightarrow>
          (case updateGroups tx groupContents of
             (Some err, tx) \<Rightarrow> (Some err, tx)
           | (None, tx) \<Rightarrow>
          (case updateUsersAndGroups tx (UID userDB) groupContents
                  (GIDs previousGroupsForCurrentUser) of
             (Some err, tx) \<Rightarrow> (Some err, tx)
           | (None, tx) \<Rightarrow> (None, tx))))))"

subsection \<open>The read path\<close>

text \<open>
  Modelled from the spec: the lookups are missing from the sources. They are read-only
  and return the stored record, or \<^verbatim>\<open>NotFound\<close> (here \<^verbatim>\<open>NoDataFoundError\<close>) when the
  key is absent.
\<close>

definition UserByName :: "cache \<Rightarrow> string \<Rightarrow> error + userDB" where
  "UserByName c name =
     (case getFromBucket zero_userDB (userByName c) name of
        (u, None) \<Rightarrow> Inr u | (u, Some err) \<Rightarrow> Inl err)"

definition UserByID :: "cache \<Rightarrow> uint32 \<Rightarrow> error + userDB" where
  "UserByID c uid =
     (case getFromBucket zero_userDB (userByID c) uid of
        (u, None) \<Rightarrow> Inr u | (u, Some err) \<Rightarrow> Inl err)"

definition GroupByID :: "cache \<Rightarrow> uint32 \<Rightarrow> error + groupDB" where
  "GroupByID c gid =
     (case getFromBucket zero_groupDB (groupByID c) gid of
        (g, None) \<Rightarrow> Inr g | (g, Some err) \<Rightarrow> Inl err)"


text \<open>
  \<^verbatim>\<open>UpdateBrokerForUser\<close> looks the user up by name first and then writes the pin in a
  transaction of its own.
\<close>

definition UpdateBrokerForUser :: "cache \<Rightarrow> string \<Rightarrow> string \<Rightarrow> error option \<times> cache" where
  "UpdateBrokerForUser c username brokerID =
     (case UserByName c username of
        Inl err \<Rightarrow> (Some err, c)
      | Inr u \<Rightarrow>
          Update c (\<lambda>tx.
            (None, tx\<lparr>userToBroker := updateBucket (userToBroker tx) (UID u) brokerID\<rparr>)))"

subsection \<open>Membership as read through the two edge buckets\<close>

definition gidsOf :: "cache \<Rightarrow> uint32 \<Rightarrow> uint32 set" where
  "gidsOf c uid = (case userToGroups c uid of Some (Stored e) \<Rightarrow> set (GIDs e) | _ \<Rightarrow> {})"

definition uidsOf :: "cache \<Rightarrow> uint32 \<Rightarrow> uint32 set" where
  "uidsOf c gid = (case groupToUsers c gid of Some (Stored e) \<Rightarrow> set (UIDs e) | _ \<Rightarrow> {})"

definition bidirectional :: "cache \<Rightarrow> bool" where
  "bidirectional c = (\<forall>uid gid. gid \<in> gidsOf c uid \<longleftrightarrow> uid \<in> uidsOf c gid)"

text \<open>The group list \<^verbatim>\<open>UpdateUserEntry\<close> reads before it writes anything.\<close>

definition previousGIDs :: "cache \<Rightarrow> uint32 \<Rightarrow> uint32 list" where
  "previousGIDs c uid = GIDs (fst (getFromBucket zero_userToGroupsDB (userToGroups c) uid))"

text \<open>The states every write operation of the cache can lead to, from the empty cache.\<close>

inductive reachable :: "cache \<Rightarrow> bool" where
  initial: "reachable emptyCache"
| user_entry: "reachable c \<Longrightarrow> reachable (snd (UpdateUserEntry c now usr groupContents))"
| broker_pin: "reachable c \<Longrightarrow> reachable (snd (UpdateBrokerForUser c username brokerID))"

text \<open>No document of the buckets the write path reads fails to decode.\<close>

definition decodable :: "cache \<Rightarrow> bool" where
  "decodable c \<longleftrightarrow>
     (\<forall>k. userByID c k \<noteq> Some Undecodable) \<and> (\<forall>k. groupByID c k \<noteq> Some Undecodable) \<and>
     (\<forall>k. userToGroups c k \<noteq> Some Undecodable) \<and> (\<forall>k. groupToUsers c k \<noteq> Some Undecodable)"

text \<open>The two errors of the identity checks.\<close>

fun ConflictingIdentity :: "error \<Rightarrow> bool" where
  "ConflictingIdentity UIDInUse = True"
| "ConflictingIdentity (GIDInUse name) = True"
| "ConflictingIdentity err = False"

text \<open>Two states of the cache with the same buckets; the logs may differ.\<close>

definition sameBuckets :: "cache \<Rightarrow> cache \<Rightarrow> bool" where
  "sameBuckets a b \<longleftrightarrow> a\<lparr>logged := []\<rparr> = b\<lparr>logged := []\<rparr>"

text \<open>The home directory \<^verbatim>\<open>updateUser\<close> writes for an incoming user.\<close>

definition keptDir :: "cache \<Rightarrow> 'a UserDB_scheme \<Rightarrow> string" where
  "keptDir c usr =
     (case userByID c (UID usr) of
        Some (Stored existingUser) \<Rightarrow>
          if Dir existingUser \<noteq> [] \<and> Dir existingUser \<noteq> Dir usr
          then Dir existingUser else Dir usr
      | _ \<Rightarrow> Dir usr)"

subsection \<open>Example values\<close>

definition alice :: UserDB where
  "alice = \<lparr>Name = ''alice'', UID = 1000, GID = 100, Gecos = ''Alice'', Dir = ''/home/alice'',
     Shell = ''/bin/sh'', LastPwdChange = 1, MinPwdAge = 2, MaxPwdAge = 3, PwdWarnPeriod = 4,
     PwdInactivity = 5, ExpirationDate = 6\<rparr>"

definition bob :: UserDB where
  "bob = \<lparr>Name = ''bob'', UID = 1001, GID = 100, Gecos = ''Bob'', Dir = ''/home/bob'',
     Shell = ''/bin/sh'', LastPwdChange = 1, MinPwdAge = 2, MaxPwdAge = 3, PwdWarnPeriod = 4,
     PwdInactivity = 5, ExpirationDate = 6\<rparr>"

definition users :: GroupDB where
  "users = \<lparr>GroupName = ''users'', GroupGID = 100\<rparr>"

definition dev :: GroupDB where
  "dev = \<lparr>GroupName = ''dev'', GroupGID = 2000\<rparr>"

definition aliceMoved :: UserDB where
  "aliceMoved = alice\<lparr>Dir := ''/tmp/x''\<rparr>"

definition aliceRenewed :: UserDB where
  "aliceRenewed = alice\<lparr>GID := 2000, Gecos := ''Alice L'', Dir := ''/srv/alice'',
     Shell := ''/bin/zsh'', MaxPwdAge := 90\<rparr>"

definition bobAs1000 :: UserDB where
  "bobAs1000 = bob\<lparr>UID := 1000\<rparr>"

definition staff :: GroupDB where
  "staff = \<lparr>GroupName = ''staff'', GroupGID = 100\<rparr>"

definition cacheAlice :: cache where
  "cacheAlice = snd (UpdateUserEntry emptyCache 1 alice [users, dev])"

definition cacheAliceBob :: cache where
  "cacheAliceBob = snd (UpdateUserEntry cacheAlice 2 bob [users])"

section \<open>The broker manager (internal/brokers/manager.go)\<close>

text \<open>
  Modelled from the spec: the \<^verbatim>\<open>Broker\<close> type and its methods \<^verbatim>\<open>newSession\<close> and
  \<^verbatim>\<open>endSession\<close> are missing from the sources. The specification has a broker be an
  opaque capability offering the two calls; what a broker answers is a field of the
  record. The manager holds pointers to brokers; the model holds the brokers.
\<close>

record Broker =
  ID :: string
  newSession :: "string \<Rightarrow> string \<Rightarrow> string \<times> string \<times> error option"
  endSession :: "string \<Rightarrow> error option"

record Manager =
  brokers :: "string \<rightharpoonup> Broker"
  brokersOrder :: "string list"
  usersToBroker :: "string \<rightharpoonup> Broker"
  transactionsToBroker :: "string \<rightharpoonup> Broker"

record options =
  rootDir :: string
  brokerCfgDir :: string

definition WithRootDir :: "string \<Rightarrow> options \<Rightarrow> options" where
  "WithRootDir p o' = o'\<lparr>rootDir := p\<rparr>"








definition brokerFromID :: "Manager \<Rightarrow> string \<Rightarrow> error + Broker" where
  "brokerFromID m id' =
     (case brokers m id' of
        None \<Rightarrow> Inl (NoBrokerMatching id')
      | Some broker \<Rightarrow> Inr broker)"

definition SetDefaultBrokerForUser :: "Manager \<Rightarrow> string \<Rightarrow> string \<Rightarrow> error option \<times> Manager" where
  "SetDefaultBrokerForUser m brokerID username =
     (case brokerFromID m brokerID of
        Inl err \<Rightarrow> (Some (InvalidBroker err), m)
      | Inr broker \<Rightarrow> (None, m\<lparr>usersToBroker := (usersToBroker m)(username \<mapsto> broker)\<rparr>))"

definition BrokerForUser :: "Manager \<Rightarrow> string \<Rightarrow> Broker option" where
  "BrokerForUser m username = usersToBroker m username"

text \<open>
  The constant \<^verbatim>\<open>localBrokerName\<close> is declared outside the sources at hand; the
  functions that read it take it as their first argument.
\<close>

definition BrokerFromSessionID :: "string \<Rightarrow> Manager \<Rightarrow> string \<Rightarrow> error + Broker" where
  "BrokerFromSessionID localBrokerName m id' =
     (if id' = [] then brokerFromID m localBrokerName
      else
        case transactionsToBroker m id' of
          None \<Rightarrow> Inl (NoBrokerForSession id')
        | Some broker \<Rightarrow> Inr broker)"

definition NewSession ::
  "Manager \<Rightarrow> string \<Rightarrow> string \<Rightarrow> string \<Rightarrow> (string \<times> string \<times> error option) \<times> Manager" where
  "NewSession m brokerID username lang =
     (case brokerFromID m brokerID of
        Inl err \<Rightarrow>(([], [], Some (InvalidBroker err)), m)
      | Inr broker \<Rightarrow>
          let (sessionID, encryptionKey, err) = newSession broker username lang in
          if err \<noteq> None then (([], [], err), m)
          else
            ((sessionID, encryptionKey, None),
             m\<lparr>transactionsToBroker := (transactionsToBroker m)(sessionID \<mapsto> broker)\<rparr>))"

definition EndSession :: "string \<Rightarrow> Manager \<Rightarrow> string \<Rightarrow> error option \<times> Manager" where
  "EndSession localBrokerName m sessionID =
     (case BrokerFromSessionID localBrokerName m sessionID of
        Inl err \<Rightarrow> (Some err, m)
      | Inr b \<Rightarrow>
          (case endSession b sessionID of
             Some err \<Rightarrow> (Some err, m)
           | None \<Rightarrow>
               (None, m\<lparr>transactionsToBroker := (transactionsToBroker m)(sessionID := None)\<rparr>)))"

subsection \<open>What NewManager loads\<close>




subsection \<open>Example brokers and managers\<close>

definition localBroker :: Broker where
  "localBroker = \<lparr>ID = ''local'',
     newSession = (\<lambda>username lang. ([], [], Some (BrokerFailure ''no session on the local broker''))),
     endSession = (\<lambda>sessionID. None)\<rparr>"

definition exampleBroker :: Broker where
  "exampleBroker = \<lparr>ID = ''example-broker'',
     newSession = (\<lambda>username lang. (''example-broker-'' @ username, ''key'', None)),
     endSession = (\<lambda>sessionID. if sessionID = ''stuck'' then Some (BrokerFailure ''busy'') else None)\<rparr>"


definition exampleManager :: Manager where
  "exampleManager = \<lparr>brokers = [''local'' \<mapsto> localBroker, ''example-broker'' \<mapsto> exampleBroker],
     brokersOrder = [''local'', ''example-broker''],
     usersToBroker = Map.empty,
     transactionsToBroker = [''stuck'' \<mapsto> exampleBroker, ''example-broker-bob'' \<mapsto> exampleBroker]\<rparr>"




section \<open>Properties of the identity cache\<close>

subsection \<open>What each step of the write path leaves alone\<close>

lemma getFromBucket_None [simp]:
  "bucket key = None \<Longrightarrow> getFromBucket z bucket key = (z, Some NoDataFoundError)"
  by (simp add: getFromBucket_def)

lemma getFromBucket_Undecodable [simp]:
  "bucket key = Some Undecodable \<Longrightarrow> getFromBucket z bucket key = (z, Some UnmarshalError)"
  by (simp add: getFromBucket_def)

lemma getFromBucket_Stored [simp]:
  "bucket key = Some (Stored r) \<Longrightarrow> getFromBucket z bucket key = (r, None)"
  by (simp add: getFromBucket_def)

lemma updateUser_frame:
  "groupByID (snd (updateUser tx u)) = groupByID tx"
  "groupByName (snd (updateUser tx u)) = groupByName tx"
  "userToGroups (snd (updateUser tx u)) = userToGroups tx"
  "groupToUsers (snd (updateUser tx u)) = groupToUsers tx"
  "userToBroker (snd (updateUser tx u)) = userToBroker tx"
  by (cases "userByID tx (UID u)";
      auto simp: updateUser_def Let_def logf_def split: if_splits prod.splits cell.splits)+

lemma updateGroups_frame:
  "userByID (snd (updateGroups tx gs)) = userByID tx \<and>
   userByName (snd (updateGroups tx gs)) = userByName tx \<and>
   userToGroups (snd (updateGroups tx gs)) = userToGroups tx \<and>
   groupToUsers (snd (updateGroups tx gs)) = groupToUsers tx \<and>
   userToBroker (snd (updateGroups tx gs)) = userToBroker tx"
proof (induction gs arbitrary: tx)
  case Nil
  show ?case by simp
next
  case (Cons g gs)
  show ?case
    by (cases "groupByID tx (GroupGID g)")
       (auto simp: Cons.IH Let_def logf_def split: if_splits prod.splits cell.splits)
qed

lemma updateGroups_other:
  "gid \<notin> GroupGID ` set gs \<Longrightarrow> groupByID (snd (updateGroups tx gs)) gid = groupByID tx gid"
proof (induction gs arbitrary: tx)
  case Nil
  show ?case by simp
next
  case (Cons g gs)
  then show ?case
    by (cases "groupByID tx (GroupGID g)")
       (auto simp: updateBucket_def Let_def logf_def split: if_splits prod.splits cell.splits)
qed

lemma addUserToGroups_frame:
  "userByID (fst (snd (addUserToGroups tx uid gs acc))) = userByID tx \<and>
   userByName (fst (snd (addUserToGroups tx uid gs acc))) = userByName tx \<and>
   groupByID (fst (snd (addUserToGroups tx uid gs acc))) = groupByID tx \<and>
   groupByName (fst (snd (addUserToGroups tx uid gs acc))) = groupByName tx \<and>
   userToGroups (fst (snd (addUserToGroups tx uid gs acc))) = userToGroups tx \<and>
   userToBroker (fst (snd (addUserToGroups tx uid gs acc))) = userToBroker tx \<and>
   logged (fst (snd (addUserToGroups tx uid gs acc))) = logged tx"
proof (induction gs arbitrary: tx acc)
  case Nil
  show ?case by simp
next
  case (Cons g gs)
  show ?case
    by (cases "groupToUsers tx (GroupGID g)")
       (auto simp: Cons.IH Let_def split: if_splits prod.splits cell.splits)
qed

lemma addUserToGroups_currentGIDs:
  "fst (addUserToGroups tx uid gs acc) = None \<Longrightarrow>
     snd (snd (addUserToGroups tx uid gs acc)) = acc @ map GroupGID gs"
proof (induction gs arbitrary: tx acc)
  case Nil
  show ?case by simp
next
  case (Cons g gs)
  then show ?case
    by (cases "groupToUsers tx (GroupGID g)")
       (auto simp: Let_def split: if_splits prod.splits cell.splits)
qed

lemma addUserToGroups_other:
  "gid \<notin> GroupGID ` set gs \<Longrightarrow>
     groupToUsers (fst (snd (addUserToGroups tx uid gs acc))) gid = groupToUsers tx gid"
proof (induction gs arbitrary: tx acc)
  case Nil
  show ?case by simp
next
  case (Cons g gs)
  then show ?case
    by (cases "groupToUsers tx (GroupGID g)")
       (auto simp: updateBucket_def Let_def split: if_splits prod.splits cell.splits)
qed

lemma addUserToGroups_uidsOf:
  "fst (addUserToGroups tx uid gs acc) = None \<Longrightarrow>
     uidsOf (fst (snd (addUserToGroups tx uid gs acc))) gid =
       (if gid \<in> GroupGID ` set gs then insert uid (uidsOf tx gid) else uidsOf tx gid)"
proof (induction gs arbitrary: tx acc)
  case Nil
  show ?case by simp
next
  case (Cons g gs)
  then show ?case
    by (cases "groupToUsers tx (GroupGID g)")
       (auto simp: uidsOf_def updateBucket_def zero_groupToUsersDB_def Let_def
             split: if_splits prod.splits cell.splits)
qed

lemma addUserToGroups_stored:
  "fst (addUserToGroups tx uid gs acc) = None \<Longrightarrow> gid \<in> GroupGID ` set gs \<Longrightarrow>
     \<exists>e. groupToUsers (fst (snd (addUserToGroups tx uid gs acc))) gid = Some (Stored e)"
proof (induction gs arbitrary: tx acc)
  case Nil
  then show ?case by simp
next
  case (Cons g gs)
  then show ?case
    by (cases "groupToUsers tx (GroupGID g)"; cases "gid \<in> GroupGID ` set gs")
       (auto simp: addUserToGroups_other updateBucket_def zero_groupToUsersDB_def Let_def
             split: if_splits prod.splits cell.splits)
qed


lemma deleteUserFromGroup_frame:
  "userByID (snd (deleteUserFromGroup tx uid gid)) = userByID tx \<and>
   userByName (snd (deleteUserFromGroup tx uid gid)) = userByName tx \<and>
   groupByID (snd (deleteUserFromGroup tx uid gid)) = groupByID tx \<and>
   groupByName (snd (deleteUserFromGroup tx uid gid)) = groupByName tx \<and>
   userToGroups (snd (deleteUserFromGroup tx uid gid)) = userToGroups tx \<and>
   userToBroker (snd (deleteUserFromGroup tx uid gid)) = userToBroker tx \<and>
   logged (snd (deleteUserFromGroup tx uid gid)) = logged tx"
  by (cases "groupToUsers tx gid")
     (auto simp: deleteUserFromGroup_def Let_def split: if_splits prod.splits cell.splits)

lemma deleteUserFromGroup_other:
  "gid' \<noteq> gid \<Longrightarrow>
     groupToUsers (snd (deleteUserFromGroup tx uid gid)) gid' = groupToUsers tx gid'"
  by (cases "groupToUsers tx gid")
     (auto simp: deleteUserFromGroup_def updateBucket_def Let_def
           split: if_splits prod.splits cell.splits)

lemma deleteUserFromGroup_stored:
  "fst (deleteUserFromGroup tx uid gid) = None \<Longrightarrow>
     \<exists>e. groupToUsers (snd (deleteUserFromGroup tx uid gid)) gid = Some (Stored e) \<and>
         set (UIDs e) = uidsOf tx gid - {uid}"
  by (cases "groupToUsers tx gid")
     (auto simp: deleteUserFromGroup_def updateBucket_def uidsOf_def zero_groupToUsersDB_def
           Let_def split: if_splits prod.splits cell.splits)

lemma removeUserFromGroups_frame:
  "userByID (snd (removeUserFromGroups tx uid cur prev)) = userByID tx \<and>
   userByName (snd (removeUserFromGroups tx uid cur prev)) = userByName tx \<and>
   groupByID (snd (removeUserFromGroups tx uid cur prev)) = groupByID tx \<and>
   groupByName (snd (removeUserFromGroups tx uid cur prev)) = groupByName tx \<and>
   userToGroups (snd (removeUserFromGroups tx uid cur prev)) = userToGroups tx \<and>
   userToBroker (snd (removeUserFromGroups tx uid cur prev)) = userToBroker tx \<and>
   logged (snd (removeUserFromGroups tx uid cur prev)) = logged tx"
proof (induction prev arbitrary: tx)
  case Nil
  show ?case by simp
next
  case (Cons p prev)
  show ?case
  proof (cases "deleteUserFromGroup tx uid p")
    case (Pair e tx1)
    have "tx1 = snd (deleteUserFromGroup tx uid p)" using Pair by simp
    then show ?thesis
      using Pair deleteUserFromGroup_frame [of tx uid p] Cons.IH [of tx] Cons.IH [of tx1]
      by (auto split: option.splits)
  qed
qed

lemma removeUserFromGroups_other:
  "gid \<notin> set prev - set cur \<Longrightarrow>
     groupToUsers (snd (removeUserFromGroups tx uid cur prev)) gid = groupToUsers tx gid"
proof (induction prev arbitrary: tx)
  case Nil
  show ?case by simp
next
  case (Cons p prev)
  show ?case
  proof (cases "deleteUserFromGroup tx uid p")
    case (Pair e tx1)
    have tx1: "tx1 = snd (deleteUserFromGroup tx uid p)" using Pair by simp
    show ?thesis
    proof (cases "p \<in> set cur")
      case True
      then show ?thesis using Cons by auto
    next
      case False
      then have "gid \<noteq> p" using Cons.prems by auto
      then have "groupToUsers tx1 gid = groupToUsers tx gid"
        using deleteUserFromGroup_other [of gid p tx uid] tx1 by simp
      moreover have "gid \<notin> set prev - set cur" using Cons.prems by auto
      ultimately show ?thesis
        using Pair False Cons.IH [of tx1] by (auto split: option.splits)
    qed
  qed
qed

lemma removeUserFromGroups_uidsOf:
  "fst (removeUserFromGroups tx uid cur prev) = None \<Longrightarrow>
     uidsOf (snd (removeUserFromGroups tx uid cur prev)) gid =
       (if gid \<in> set prev - set cur then uidsOf tx gid - {uid} else uidsOf tx gid)"
proof (induction prev arbitrary: tx)
  case Nil
  show ?case by simp
next
  case (Cons p prev)
  show ?case
  proof (cases "p \<in> set cur")
    case True
    then show ?thesis using Cons by auto
  next
    case False
    obtain e tx1 where d: "deleteUserFromGroup tx uid p = (e, tx1)"
      by (cases "deleteUserFromGroup tx uid p")
    with Cons.prems False have e: "e = None" by (auto split: option.splits)
    have r: "removeUserFromGroups tx uid cur (p # prev) = removeUserFromGroups tx1 uid cur prev"
      using d e False by simp
    have ok: "fst (removeUserFromGroups tx1 uid cur prev) = None"
      using Cons.prems r by simp
    have st: "\<exists>e'. groupToUsers tx1 p = Some (Stored e') \<and> set (UIDs e') = uidsOf tx p - {uid}"
      using deleteUserFromGroup_stored [of tx uid p] by (simp add: d e)
    have oth: "groupToUsers tx1 g = groupToUsers tx g" if "g \<noteq> p" for g
      using deleteUserFromGroup_other [of g p tx uid] that by (simp add: d)
    have u1: "uidsOf tx1 g = (if g = p then uidsOf tx g - {uid} else uidsOf tx g)" for g
    proof (cases "g = p")
      case True
      obtain e' where "groupToUsers tx1 p = Some (Stored e')" "set (UIDs e') = uidsOf tx p - {uid}"
        using st by blast
      then show ?thesis using True by (simp add: uidsOf_def)
    next
      case False
      then show ?thesis using oth [of g] by (simp add: uidsOf_def)
    qed
    show ?thesis
      unfolding r using Cons.IH [OF ok] u1 False by auto
  qed
qed

lemma removeUserFromGroups_stored:
  "fst (removeUserFromGroups tx uid cur prev) = None \<Longrightarrow> gid \<in> set prev - set cur \<Longrightarrow>
     \<exists>e. groupToUsers (snd (removeUserFromGroups tx uid cur prev)) gid = Some (Stored e)"
proof (induction prev arbitrary: tx)
  case Nil
  then show ?case by simp
next
  case (Cons p prev)
  show ?case
  proof (cases "p \<in> set cur")
    case True
    then show ?thesis using Cons by auto
  next
    case False
    obtain e tx1 where d: "deleteUserFromGroup tx uid p = (e, tx1)"
      by (cases "deleteUserFromGroup tx uid p")
    with Cons.prems False have e: "e = None" by (auto split: option.splits)
    have r: "removeUserFromGroups tx uid cur (p # prev) = removeUserFromGroups tx1 uid cur prev"
      using d e False by simp
    have ok: "fst (removeUserFromGroups tx1 uid cur prev) = None"
      using Cons.prems r by simp
    show ?thesis
    proof (cases "gid \<in> set prev - set cur")
      case True
      then show ?thesis unfolding r using Cons.IH [OF ok] by simp
    next
      case False
      then have "gid = p" using Cons.prems by auto
      moreover have "groupToUsers (snd (removeUserFromGroups tx1 uid cur prev)) gid
                     = groupToUsers tx1 gid"
        using removeUserFromGroups_other [OF False] .
      moreover have "\<exists>e'. groupToUsers tx1 p = Some (Stored e')"
        using deleteUserFromGroup_stored [of tx uid p] by (auto simp: d e)
      ultimately show ?thesis
        unfolding r by simp
    qed
  qed
qed


lemma set_previousGIDs: "set (previousGIDs c uid) = gidsOf c uid"
  by (cases "userToGroups c uid")
     (auto simp: previousGIDs_def gidsOf_def zero_userToGroupsDB_def split: cell.splits)

lemma extend_simps [simp]:
  "Name (UserDB.extend usr (userDB.fields now)) = Name usr"
  "UID (UserDB.extend usr (userDB.fields now)) = UID usr"
  "Dir (UserDB.extend usr (userDB.fields now)) = Dir usr"
  by (simp_all add: UserDB.extend_def userDB.fields_def)

lemma updateUsersAndGroups_decomp:
  assumes "updateUsersAndGroups tx uid gs prev = (None, tx')"
  shows "\<exists>tx1. addUserToGroups tx uid gs [] = (None, tx1, map GroupGID gs) \<and>
           removeUserFromGroups
             (tx1\<lparr>userToGroups := updateBucket (userToGroups tx1) uid
                     \<lparr>userUID = uid, GIDs = map GroupGID gs\<rparr>\<rparr>)
             uid (map GroupGID gs) prev = (None, tx')"
proof -
  obtain e tx1 cur where a: "addUserToGroups tx uid gs [] = (e, tx1, cur)"
    by (cases "addUserToGroups tx uid gs []") auto
  with assms have e: "e = None"
    by (auto simp: updateUsersAndGroups_def split: option.splits)
  have "cur = map GroupGID gs"
    using addUserToGroups_currentGIDs [of tx uid gs "[]"] a e by simp
  then show ?thesis
    using assms a e by (simp add: updateUsersAndGroups_def Let_def)
qed

lemma UpdateUserEntry_decomp:
  assumes "UpdateUserEntry c now usr gs = (None, c')"
  shows "\<exists>tx1 tx2. userToGroups c (UID usr) \<noteq> Some Undecodable \<and>
           updateUser c (UserDB.extend usr (userDB.fields now)) = (None, tx1) \<and>
           updateGroups tx1 gs = (None, tx2) \<and>
           updateUsersAndGroups tx2 (UID usr) gs (previousGIDs c (UID usr)) = (None, c')"
  using assms
  by (cases "userToGroups c (UID usr)")
     (auto simp: UpdateUserEntry_def Update_def Let_def previousGIDs_def
           split: if_splits prod.splits option.splits cell.splits)

lemma UpdateUserEntry_edges:
  assumes "UpdateUserEntry c now usr gs = (None, c')"
  shows "gidsOf c' u = (if u = UID usr then GroupGID ` set gs else gidsOf c u)"
    and "uidsOf c' g =
           (if g \<in> GroupGID ` set gs then insert (UID usr) (uidsOf c g)
            else if g \<in> gidsOf c (UID usr) then uidsOf c g - {UID usr} else uidsOf c g)"
proof -
  let ?uid = "UID usr" and ?cur = "map GroupGID gs" and ?prev = "previousGIDs c (UID usr)"
  obtain tx1 tx2 where
    u: "updateUser c (UserDB.extend usr (userDB.fields now)) = (None, tx1)" and
    g: "updateGroups tx1 gs = (None, tx2)" and
    m: "updateUsersAndGroups tx2 ?uid gs ?prev = (None, c')"
    using UpdateUserEntry_decomp [OF assms] by blast
  obtain tx3 where
    a: "addUserToGroups tx2 ?uid gs [] = (None, tx3, ?cur)" and
    r: "removeUserFromGroups
          (tx3\<lparr>userToGroups := updateBucket (userToGroups tx3) ?uid
                  \<lparr>userUID = ?uid, GIDs = ?cur\<rparr>\<rparr>) ?uid ?cur ?prev = (None, c')"
    using updateUsersAndGroups_decomp [OF m] by blast
  let ?tx4 = "tx3\<lparr>userToGroups := updateBucket (userToGroups tx3) ?uid
                  \<lparr>userUID = ?uid, GIDs = ?cur\<rparr>\<rparr>"
  have e1: "userToGroups tx1 = userToGroups c" "groupToUsers tx1 = groupToUsers c"
    using updateUser_frame(3,4) [of c "UserDB.extend usr (userDB.fields now)"] u by simp_all
  have e2: "userToGroups tx2 = userToGroups c" "groupToUsers tx2 = groupToUsers c"
    using updateGroups_frame [of tx1 gs] g e1 by simp_all
  have e3: "userToGroups tx3 = userToGroups c"
    using addUserToGroups_frame [of tx2 ?uid gs "[]"] a e2 by simp
  have u3: "uidsOf tx3 g = (if g \<in> GroupGID ` set gs then insert ?uid (uidsOf c g) else uidsOf c g)"
    using addUserToGroups_uidsOf [of tx2 ?uid gs "[]" g] a e2 by (simp add: uidsOf_def)
  have e4: "userToGroups c' = userToGroups ?tx4"
    using removeUserFromGroups_frame [of ?tx4 ?uid ?cur ?prev] r by simp
  show "gidsOf c' u = (if u = UID usr then GroupGID ` set gs else gidsOf c u)"
    by (simp add: gidsOf_def e4 e3 updateBucket_def)
  have "uidsOf c' g = (if g \<in> set ?prev - set ?cur then uidsOf ?tx4 g - {?uid} else uidsOf ?tx4 g)"
    using removeUserFromGroups_uidsOf [of ?tx4 ?uid ?cur ?prev g] r by simp
  moreover have "uidsOf ?tx4 g = uidsOf tx3 g" by (simp add: uidsOf_def)
  ultimately show "uidsOf c' g =
           (if g \<in> GroupGID ` set gs then insert (UID usr) (uidsOf c g)
            else if g \<in> gidsOf c (UID usr) then uidsOf c g - {UID usr} else uidsOf c g)"
    using u3 by (auto simp: set_previousGIDs)
qed

lemma bidirectional_step:
  assumes "bidirectional c" and "UpdateUserEntry c now usr gs = (None, c')"
  shows "bidirectional c'"
  unfolding bidirectional_def
proof (intro allI)
  fix uid gid
  show "gid \<in> gidsOf c' uid \<longleftrightarrow> uid \<in> uidsOf c' gid"
    using assms(1) unfolding bidirectional_def
    by (auto simp: UpdateUserEntry_edges [OF assms(2)])
qed


lemma Update_abort:
  "fst (Update c f) = Some e \<Longrightarrow> snd (Update c f) = c\<lparr>logged := logged (snd (f c))\<rparr>"
  by (cases "f c") (auto simp: Update_def split: option.splits)

lemma UpdateUserEntry_abort:
  "fst (UpdateUserEntry c now usr gs) = Some e \<Longrightarrow>
     \<exists>l. snd (UpdateUserEntry c now usr gs) = c\<lparr>logged := l\<rparr>"
  unfolding UpdateUserEntry_def Let_def by (blast dest: Update_abort)

lemma bidirectional_logged [simp]: "bidirectional (c\<lparr>logged := l\<rparr>) = bidirectional c"
  by (simp add: bidirectional_def gidsOf_def uidsOf_def)

lemma bidirectional_emptyCache: "bidirectional emptyCache"
  by (simp add: bidirectional_def gidsOf_def uidsOf_def emptyCache_def)

lemma bidirectional_call:
  assumes "bidirectional c"
  shows "bidirectional (snd (UpdateUserEntry c now usr gs))"
proof (cases "fst (UpdateUserEntry c now usr gs)")
  case None
  then have "UpdateUserEntry c now usr gs = (None, snd (UpdateUserEntry c now usr gs))"
    by (metis prod.collapse)
  then show ?thesis using bidirectional_step [OF assms] by blast
next
  case (Some e)
  then obtain l where "snd (UpdateUserEntry c now usr gs) = c\<lparr>logged := l\<rparr>"
    using UpdateUserEntry_abort by blast
  then show ?thesis using assms by simp
qed

lemma bidirectional_pin:
  "bidirectional (snd (UpdateBrokerForUser c username brokerID)) = bidirectional c"
  by (auto simp: UpdateBrokerForUser_def Update_def bidirectional_def gidsOf_def uidsOf_def
           split: sum.splits)

lemma bidirectional_reachable: "reachable c \<Longrightarrow> bidirectional c"
  by (induction rule: reachable.induct)
     (simp_all add: bidirectional_emptyCache bidirectional_call bidirectional_pin)

lemma cacheAlice_buckets:
  "userByID cacheAlice = [1000 \<mapsto> Stored (UserDB.extend alice (userDB.fields 1))]"
  "userByName cacheAlice = [''alice'' \<mapsto> Stored (UserDB.extend alice (userDB.fields 1))]"
  "groupByID cacheAlice = [100 \<mapsto> Stored \<lparr>groupName = ''users'', groupGID = 100\<rparr>,
                           2000 \<mapsto> Stored \<lparr>groupName = ''dev'', groupGID = 2000\<rparr>]"
  "groupByName cacheAlice = [''users'' \<mapsto> Stored \<lparr>groupName = ''users'', groupGID = 100\<rparr>,
                             ''dev'' \<mapsto> Stored \<lparr>groupName = ''dev'', groupGID = 2000\<rparr>]"
  "userToGroups cacheAlice = [1000 \<mapsto> Stored \<lparr>userUID = 1000, GIDs = [100, 2000]\<rparr>]"
  "groupToUsers cacheAlice = [100 \<mapsto> Stored \<lparr>groupToUsersGID = 100, UIDs = [1000]\<rparr>,
                              2000 \<mapsto> Stored \<lparr>groupToUsersGID = 2000, UIDs = [1000]\<rparr>]"
  "userToBroker cacheAlice = Map.empty"
  by (simp_all add: cacheAlice_def UpdateUserEntry_def Update_def updateUser_def
        updateUsersAndGroups_def getFromBucket_def updateBucket_def emptyCache_def alice_def
        users_def dev_def logf_def zero_userDB_def zero_groupDB_def zero_userToGroupsDB_def
        zero_groupToUsersDB_def UserDB.extend_def userDB.fields_def Let_def)

subsection \<open>Bidirectional membership\<close>

text \<open>
  C1. After every call of UpdateUserEntry, committed or aborted, on a cache whose
  membership is bidirectional, membership is bidirectional again: a gid is in
  user_to_groups[uid].gids if and only if the uid is in group_to_users[gid].uids.
\<close>

theorem bidirectional_membership:
  assumes "bidirectional c"
  shows "bidirectional (snd (UpdateUserEntry c now usr groupContents))"
  using assms by (rule bidirectional_call)

theorem bidirectional_membership_witness:
  "bidirectional emptyCache \<and> bidirectional cacheAlice \<and>
   gidsOf cacheAlice 1000 = {100, 2000} \<and> uidsOf cacheAlice 2000 = {1000}"
proof -
  have "bidirectional cacheAlice"
    unfolding cacheAlice_def
    by (rule bidirectional_membership [OF bidirectional_emptyCache])
  then show ?thesis
    by (simp add: bidirectional_emptyCache gidsOf_def uidsOf_def cacheAlice_buckets)
qed

subsection \<open>Leaving a group\<close>

lemma UpdateUserEntry_groupByID_other:
  assumes "UpdateUserEntry c now usr gs = (None, c')" and "gid \<notin> GroupGID ` set gs"
  shows "groupByID c' gid = groupByID c gid"
proof -
  obtain tx1 tx2 where
    u: "updateUser c (UserDB.extend usr (userDB.fields now)) = (None, tx1)" and
    g: "updateGroups tx1 gs = (None, tx2)" and
    m: "updateUsersAndGroups tx2 (UID usr) gs (previousGIDs c (UID usr)) = (None, c')"
    using UpdateUserEntry_decomp [OF assms(1)] by blast
  obtain tx3 where
    a: "addUserToGroups tx2 (UID usr) gs [] = (None, tx3, map GroupGID gs)" and
    r: "removeUserFromGroups
          (tx3\<lparr>userToGroups := updateBucket (userToGroups tx3) (UID usr)
                  \<lparr>userUID = UID usr, GIDs = map GroupGID gs\<rparr>\<rparr>)
          (UID usr) (map GroupGID gs) (previousGIDs c (UID usr)) = (None, c')"
    using updateUsersAndGroups_decomp [OF m] by blast
  have "groupByID tx1 = groupByID c"
    using updateUser_frame(1) [of c "UserDB.extend usr (userDB.fields now)"] u by simp
  moreover have "groupByID tx2 gid = groupByID tx1 gid"
    using updateGroups_other [OF assms(2), of tx1] g by simp
  moreover have "groupByID tx3 = groupByID tx2"
    using addUserToGroups_frame [of tx2 "UID usr" gs "[]"] a by simp
  moreover have "groupByID c' = groupByID tx3"
    using removeUserFromGroups_frame
            [of "tx3\<lparr>userToGroups := updateBucket (userToGroups tx3) (UID usr)
                  \<lparr>userUID = UID usr, GIDs = map GroupGID gs\<rparr>\<rparr>"
                "UID usr" "map GroupGID gs" "previousGIDs c (UID usr)"] r
    by simp
  ultimately show ?thesis by simp
qed

lemma UpdateUserEntry_left_group_stored:
  assumes "UpdateUserEntry c now usr gs = (None, c')"
      and "gid \<in> set (previousGIDs c (UID usr))" and "gid \<notin> GroupGID ` set gs"
  shows "\<exists>edge. groupToUsers c' gid = Some (Stored edge)"
proof -
  obtain tx1 tx2 where
    m: "updateUsersAndGroups tx2 (UID usr) gs (previousGIDs c (UID usr)) = (None, c')"
    using UpdateUserEntry_decomp [OF assms(1)] by blast
  obtain tx3 where
    r: "removeUserFromGroups
          (tx3\<lparr>userToGroups := updateBucket (userToGroups tx3) (UID usr)
                  \<lparr>userUID = UID usr, GIDs = map GroupGID gs\<rparr>\<rparr>)
          (UID usr) (map GroupGID gs) (previousGIDs c (UID usr)) = (None, c')"
    using updateUsersAndGroups_decomp [OF m] by blast
  have "gid \<in> set (previousGIDs c (UID usr)) - set (map GroupGID gs)"
    using assms(2,3) by simp
  then show ?thesis
    using removeUserFromGroups_stored
            [of "tx3\<lparr>userToGroups := updateBucket (userToGroups tx3) (UID usr)
                  \<lparr>userUID = UID usr, GIDs = map GroupGID gs\<rparr>\<rparr>"
                "UID usr" "map GroupGID gs" "previousGIDs c (UID usr)" gid] r
    by simp
qed

lemma GroupByID_cong: "groupByID c' gid = groupByID c gid \<Longrightarrow> GroupByID c' gid = GroupByID c gid"
  by (simp add: GroupByID_def getFromBucket_def)

text \<open>
  C4. When a committed UpdateUserEntry leaves out a GID of the user's old group list, the
  edge group_to_users[gid] is still stored afterwards, its uid list is the old one
  without the uid, it is the empty list when no other uid was in it, and
  group_by_id[gid] resolves as before.
\<close>

theorem shrinking_group_set:
  assumes "UpdateUserEntry c now usr groupContents = (None, c')"
      and "gid \<in> set (previousGIDs c (UID usr))"
      and "gid \<notin> GroupGID ` set groupContents"
  shows "\<exists>edge. groupToUsers c' gid = Some (Stored edge) \<and>
           set (UIDs edge) = uidsOf c gid - {UID usr} \<and>
           UID usr \<notin> set (UIDs edge) \<and>
           (uidsOf c gid \<subseteq> {UID usr} \<longrightarrow> UIDs edge = []) \<and>
           GroupByID c' gid = GroupByID c gid"
proof -
  obtain edge where e: "groupToUsers c' gid = Some (Stored edge)"
    using UpdateUserEntry_left_group_stored [OF assms] by blast
  have "uidsOf c' gid = uidsOf c gid - {UID usr}"
    using UpdateUserEntry_edges(2) [OF assms(1), of gid] assms(2,3)
    by (simp add: set_previousGIDs)
  then have s: "set (UIDs edge) = uidsOf c gid - {UID usr}"
    using e by (simp add: uidsOf_def)
  have "GroupByID c' gid = GroupByID c gid"
    using UpdateUserEntry_groupByID_other [OF assms(1,3)] by (rule GroupByID_cong)
  moreover have "UIDs edge = []" if "uidsOf c gid \<subseteq> {UID usr}"
  proof -
    have "set (UIDs edge) = {}" using s that by auto
    then show ?thesis by simp
  qed
  ultimately show ?thesis using e s by auto
qed

theorem shrinking_group_set_witness:
  "UpdateUserEntry cacheAlice 2 alice [users] =
     (None, snd (UpdateUserEntry cacheAlice 2 alice [users])) \<and>
   2000 \<in> set (previousGIDs cacheAlice (UID alice)) \<and>
   2000 \<notin> GroupGID ` set [users] \<and>
   (\<exists>edge. groupToUsers (snd (UpdateUserEntry cacheAlice 2 alice [users])) 2000 = Some (Stored edge) \<and>
      UIDs edge = []) \<and>
   GroupByID (snd (UpdateUserEntry cacheAlice 2 alice [users])) 2000 =
     Inr \<lparr>groupName = ''dev'', groupGID = 2000\<rparr>"
proof -
  have ok: "fst (UpdateUserEntry cacheAlice 2 alice [users]) = None"
    by (simp add: UpdateUserEntry_def Update_def updateUser_def updateUsersAndGroups_def
        deleteUserFromGroup_def getFromBucket_def updateBucket_def cacheAlice_buckets alice_def
        users_def logf_def zero_userDB_def zero_groupDB_def zero_userToGroupsDB_def
        zero_groupToUsersDB_def UserDB.extend_def userDB.fields_def Let_def)
  then have run: "UpdateUserEntry cacheAlice 2 alice [users] =
                    (None, snd (UpdateUserEntry cacheAlice 2 alice [users]))"
    by (metis prod.collapse)
  have prev: "2000 \<in> set (previousGIDs cacheAlice (UID alice))"
    by (simp add: previousGIDs_def getFromBucket_def cacheAlice_buckets alice_def)
  have new: "2000 \<notin> GroupGID ` set [users]"
    by (simp add: users_def)
  have u: "uidsOf cacheAlice 2000 \<subseteq> {UID alice}"
    by (simp add: uidsOf_def cacheAlice_buckets alice_def)
  have g: "GroupByID cacheAlice 2000 = Inr \<lparr>groupName = ''dev'', groupGID = 2000\<rparr>"
    by (simp add: GroupByID_def getFromBucket_def cacheAlice_buckets)
  show ?thesis
    using shrinking_group_set [OF run prev new] run prev new u g by auto
qed

subsection \<open>The stored user record\<close>

lemma keptDir_extend [simp]:
  "keptDir c (UserDB.extend usr (userDB.fields now)) = keptDir c usr"
  by (simp add: keptDir_def split: option.splits cell.splits)

lemma keptDir_logged [simp]: "keptDir (c\<lparr>logged := l\<rparr>) usr = keptDir c usr"
  by (simp add: keptDir_def)

lemma updateUser_None:
  assumes "updateUser tx u = (None, tx')"
  shows "userByID tx' = (userByID tx)(UID u \<mapsto> Stored (u\<lparr>Dir := keptDir tx u\<rparr>))"
    and "userByName tx' = (userByName tx)(Name u \<mapsto> Stored (u\<lparr>Dir := keptDir tx u\<rparr>))"
  using assms
  by (cases "userByID tx (UID u)";
      auto simp: updateUser_def keptDir_def updateBucket_def zero_userDB_def Let_def logf_def
           split: if_splits prod.splits cell.splits)+

lemma UpdateUserEntry_user_buckets:
  assumes "UpdateUserEntry c now usr gs = (None, c')"
  shows "userByID c' = (userByID c)(UID usr \<mapsto>
           Stored ((UserDB.extend usr (userDB.fields now))\<lparr>Dir := keptDir c usr\<rparr>))"
    and "userByName c' = (userByName c)(Name usr \<mapsto>
           Stored ((UserDB.extend usr (userDB.fields now))\<lparr>Dir := keptDir c usr\<rparr>))"
proof -
  let ?u = "UserDB.extend usr (userDB.fields now)"
  obtain tx1 tx2 where
    u: "updateUser c ?u = (None, tx1)" and
    g: "updateGroups tx1 gs = (None, tx2)" and
    m: "updateUsersAndGroups tx2 (UID usr) gs (previousGIDs c (UID usr)) = (None, c')"
    using UpdateUserEntry_decomp [OF assms(1)] by blast
  obtain tx3 where
    a: "addUserToGroups tx2 (UID usr) gs [] = (None, tx3, map GroupGID gs)" and
    r: "removeUserFromGroups
          (tx3\<lparr>userToGroups := updateBucket (userToGroups tx3) (UID usr)
                  \<lparr>userUID = UID usr, GIDs = map GroupGID gs\<rparr>\<rparr>)
          (UID usr) (map GroupGID gs) (previousGIDs c (UID usr)) = (None, c')"
    using updateUsersAndGroups_decomp [OF m] by blast
  have e2: "userByID tx2 = userByID tx1" "userByName tx2 = userByName tx1"
    using updateGroups_frame [of tx1 gs] g by simp_all
  have e3: "userByID tx3 = userByID tx2" "userByName tx3 = userByName tx2"
    using addUserToGroups_frame [of tx2 "UID usr" gs "[]"] a by simp_all
  have e4: "userByID c' = userByID tx3" "userByName c' = userByName tx3"
    using removeUserFromGroups_frame
            [of "tx3\<lparr>userToGroups := updateBucket (userToGroups tx3) (UID usr)
                  \<lparr>userUID = UID usr, GIDs = map GroupGID gs\<rparr>\<rparr>"
                "UID usr" "map GroupGID gs" "previousGIDs c (UID usr)"] r
    by simp_all
  show "userByID c' = (userByID c)(UID usr \<mapsto> Stored (?u\<lparr>Dir := keptDir c usr\<rparr>))"
    using updateUser_None(1) [OF u] e2 e3 e4 by simp
  show "userByName c' = (userByName c)(Name usr \<mapsto> Stored (?u\<lparr>Dir := keptDir c usr\<rparr>))"
    using updateUser_None(2) [OF u] e2 e3 e4 by simp
qed

lemma UpdateUserEntry_lookups:
  assumes "UpdateUserEntry c now usr gs = (None, c')"
  shows "UserByName c' (Name usr) =
           Inr ((UserDB.extend usr (userDB.fields now))\<lparr>Dir := keptDir c usr\<rparr>)"
    and "UserByID c' (UID usr) =
           Inr ((UserDB.extend usr (userDB.fields now))\<lparr>Dir := keptDir c usr\<rparr>)"
  by (simp_all add: UserByName_def UserByID_def getFromBucket_def
        UpdateUserEntry_user_buckets [OF assms])

lemma truncate_extend [simp]:
  "UserDB.truncate ((UserDB.extend usr (userDB.fields now))\<lparr>Dir := d\<rparr>) = usr\<lparr>Dir := d\<rparr>"
  by (simp add: UserDB.truncate_def UserDB.extend_def)

text \<open>
  C5 (amended). After a successful UpdateUserEntry(u, gs), UserByName(u.name) and
  UserByID(u.uid) return the same record; it equals u in every field except last_login
  and home_dir, and its home_dir is the one the cache held for u.uid before the call when
  that was non-empty and different from u's, and u's otherwise.
\<close>

theorem round_trip_modulo_home_dir:
  assumes "UpdateUserEntry c now usr groupContents = (None, c')"
  shows "\<exists>r. UserByName c' (Name usr) = Inr r \<and> UserByID c' (UID usr) = Inr r \<and>
             UserDB.truncate r = usr\<lparr>Dir := keptDir c usr\<rparr>"
  using UpdateUserEntry_lookups [OF assms] by simp


subsection \<open>The home directory is kept\<close>

lemma sameBuckets_iff:
  "sameBuckets a b \<longleftrightarrow>
     userByID a = userByID b \<and> userByName a = userByName b \<and> groupByID a = groupByID b \<and>
     groupByName a = groupByName b \<and> userToGroups a = userToGroups b \<and>
     groupToUsers a = groupToUsers b \<and> userToBroker a = userToBroker b \<and>
     cache.more a = cache.more b"
  by (cases a; cases b) (auto simp: sameBuckets_def)

lemma sameBuckets_refl [simp]: "sameBuckets a a"
  by (simp add: sameBuckets_def)

lemma sameBuckets_logged [simp]: "sameBuckets (a\<lparr>logged := l\<rparr>) b = sameBuckets a b"
  "sameBuckets a (b\<lparr>logged := l\<rparr>) = sameBuckets a b"
  by (simp_all add: sameBuckets_def)

lemma sameBuckets_updateGroups:
  "sameBuckets a b \<Longrightarrow>
     fst (updateGroups a gs) = fst (updateGroups b gs) \<and>
     sameBuckets (snd (updateGroups a gs)) (snd (updateGroups b gs))"
proof (induction gs arbitrary: a b)
  case Nil
  then show ?case by simp
next
  case (Cons g gs)
  let ?a = "a\<lparr>groupByID := updateBucket (groupByID a) (GroupGID g)
                  \<lparr>groupName = GroupName g, groupGID = GroupGID g\<rparr>,
               groupByName := updateBucket (groupByName a) (GroupName g)
                  \<lparr>groupName = GroupName g, groupGID = GroupGID g\<rparr>\<rparr>"
  let ?b = "b\<lparr>groupByID := updateBucket (groupByID b) (GroupGID g)
                  \<lparr>groupName = GroupName g, groupGID = GroupGID g\<rparr>,
               groupByName := updateBucket (groupByName b) (GroupName g)
                  \<lparr>groupName = GroupName g, groupGID = GroupGID g\<rparr>\<rparr>"
  have eq: "groupByID a = groupByID b" using Cons.prems by (simp add: sameBuckets_iff)
  have "sameBuckets ?a ?b" using Cons.prems by (simp add: sameBuckets_iff)
  then have ih: "fst (updateGroups ?a gs) = fst (updateGroups ?b gs) \<and>
                 sameBuckets (snd (updateGroups ?a gs)) (snd (updateGroups ?b gs))"
    by (rule Cons.IH)
  show ?case
    using ih Cons.prems eq
    by (auto simp: getFromBucket_def Let_def logf_def split: option.splits cell.splits)
qed

lemma sameBuckets_deleteUserFromGroup:
  "sameBuckets a b \<Longrightarrow>
     fst (deleteUserFromGroup a uid gid) = fst (deleteUserFromGroup b uid gid) \<and>
     sameBuckets (snd (deleteUserFromGroup a uid gid)) (snd (deleteUserFromGroup b uid gid))"
  by (auto simp: sameBuckets_iff deleteUserFromGroup_def getFromBucket_def Let_def
           split: option.splits cell.splits)

lemma sameBuckets_addUserToGroups:
  "sameBuckets a b \<Longrightarrow>
     fst (addUserToGroups a uid gs acc) = fst (addUserToGroups b uid gs acc) \<and>
     sameBuckets (fst (snd (addUserToGroups a uid gs acc)))
                 (fst (snd (addUserToGroups b uid gs acc))) \<and>
     snd (snd (addUserToGroups a uid gs acc)) = snd (snd (addUserToGroups b uid gs acc))"
proof (induction gs arbitrary: a b acc)
  case Nil
  then show ?case by simp
next
  case (Cons g gs)
  have eq: "groupToUsers a = groupToUsers b" using Cons.prems by (simp add: sameBuckets_iff)
  have step: "sameBuckets (a\<lparr>groupToUsers := x\<rparr>) (b\<lparr>groupToUsers := x\<rparr>)" for x
    using Cons.prems by (simp add: sameBuckets_iff)
  show ?case
    using Cons.prems eq Cons.IH [OF step]
    by (auto simp: getFromBucket_def Let_def split: option.splits cell.splits)
qed

lemma sameBuckets_removeUserFromGroups:
  "sameBuckets a b \<Longrightarrow>
     fst (removeUserFromGroups a uid cur prev) = fst (removeUserFromGroups b uid cur prev) \<and>
     sameBuckets (snd (removeUserFromGroups a uid cur prev))
                 (snd (removeUserFromGroups b uid cur prev))"
proof (induction prev arbitrary: a b)
  case Nil
  then show ?case by simp
next
  case (Cons p prev)
  show ?case
  proof (cases "p \<in> set cur")
    case True
    then show ?thesis using Cons.IH [OF Cons.prems] by simp
  next
    case False
    obtain ea a1 where da: "deleteUserFromGroup a uid p = (ea, a1)"
      by (cases "deleteUserFromGroup a uid p")
    obtain eb b1 where db: "deleteUserFromGroup b uid p = (eb, b1)"
      by (cases "deleteUserFromGroup b uid p")
    have e: "ea = eb" and s: "sameBuckets a1 b1"
      using sameBuckets_deleteUserFromGroup [OF Cons.prems, of uid p] da db by simp_all
    show ?thesis
      using False da db e s Cons.IH [OF s] by (auto split: option.splits)
  qed
qed

lemma sameBuckets_updateUsersAndGroups:
  assumes "sameBuckets a b"
  shows "fst (updateUsersAndGroups a uid gs prev) = fst (updateUsersAndGroups b uid gs prev) \<and>
         sameBuckets (snd (updateUsersAndGroups a uid gs prev))
                     (snd (updateUsersAndGroups b uid gs prev))"
proof -
  obtain ea a1 ca where da: "addUserToGroups a uid gs [] = (ea, a1, ca)"
    by (cases "addUserToGroups a uid gs []") auto
  obtain eb b1 cb where db: "addUserToGroups b uid gs [] = (eb, b1, cb)"
    by (cases "addUserToGroups b uid gs []") auto
  have e: "ea = eb" and s: "sameBuckets a1 b1" and c: "ca = cb"
    using sameBuckets_addUserToGroups [OF assms, of uid gs "[]"] da db by simp_all
  have s': "sameBuckets (a1\<lparr>userToGroups := updateBucket (userToGroups a1) uid x\<rparr>)
                        (b1\<lparr>userToGroups := updateBucket (userToGroups b1) uid x\<rparr>)" for x
    using s by (simp add: sameBuckets_iff)
  show ?thesis
    using da db e c s sameBuckets_removeUserFromGroups [OF s']
    by (auto simp: updateUsersAndGroups_def Let_def split: option.splits)
qed


lemma extend_Dir_update:
  "UserDB.extend (usr\<lparr>Dir := d\<rparr>) (userDB.fields now) =
     (UserDB.extend usr (userDB.fields now))\<lparr>Dir := d\<rparr>"
  by (simp add: UserDB.extend_def)

lemma updateUser_sticky:
  assumes "userByID tx (UID u) = Some (Stored existingUser)"
      and "Dir existingUser \<noteq> []" and "Dir u \<noteq> Dir existingUser"
  shows "fst (updateUser tx u) = fst (updateUser tx (u\<lparr>Dir := Dir existingUser\<rparr>))"
    and "sameBuckets (snd (updateUser tx u)) (snd (updateUser tx (u\<lparr>Dir := Dir existingUser\<rparr>)))"
  using assms
  by (auto simp: updateUser_def sameBuckets_iff Let_def logf_def)

lemma updateUser_sticky_logged:
  assumes "userByID tx (UID u) = Some (Stored existingUser)"
      and "Dir existingUser \<noteq> []" and "Dir u \<noteq> Dir existingUser"
      and "updateUser tx u = (None, tx')"
  shows "logged tx' = logged tx @
           [(LevelWarning,
             ''User %q already has a homedir. The existing %q one will be kept instead of %q'',
             [S (Name u), S (Dir existingUser), S (Dir u)]),
            (LevelDebug, ''Updating entry of user %q (UID: %d)'', [S (Name u), U (UID u)])]"
  using assms
  by (auto simp: updateUser_def Let_def logf_def split: if_splits)

lemma updateGroups_None_logged:
  "updateGroups tx gs = (None, tx') \<Longrightarrow> logged tx' = logged tx"
proof (induction gs arbitrary: tx)
  case Nil
  then show ?case by simp
next
  case (Cons g gs)
  then show ?case
    by (auto simp: getFromBucket_def Let_def split: option.splits cell.splits if_splits)
qed

lemma UpdateUserEntry_None_logged:
  assumes "UpdateUserEntry c now usr gs = (None, c')"
  shows "\<exists>tx1. updateUser c (UserDB.extend usr (userDB.fields now)) = (None, tx1) \<and>
           logged c' = logged tx1"
proof -
  obtain tx1 tx2 where
    u: "updateUser c (UserDB.extend usr (userDB.fields now)) = (None, tx1)" and
    g: "updateGroups tx1 gs = (None, tx2)" and
    m: "updateUsersAndGroups tx2 (UID usr) gs (previousGIDs c (UID usr)) = (None, c')"
    using UpdateUserEntry_decomp [OF assms(1)] by blast
  obtain tx3 where
    a: "addUserToGroups tx2 (UID usr) gs [] = (None, tx3, map GroupGID gs)" and
    r: "removeUserFromGroups
          (tx3\<lparr>userToGroups := updateBucket (userToGroups tx3) (UID usr)
                  \<lparr>userUID = UID usr, GIDs = map GroupGID gs\<rparr>\<rparr>)
          (UID usr) (map GroupGID gs) (previousGIDs c (UID usr)) = (None, c')"
    using updateUsersAndGroups_decomp [OF m] by blast
  have "logged tx2 = logged tx1" using updateGroups_None_logged [OF g] .
  moreover have "logged tx3 = logged tx2"
    using addUserToGroups_frame [of tx2 "UID usr" gs "[]"] a by simp
  moreover have "logged c' = logged tx3"
    using removeUserFromGroups_frame
            [of "tx3\<lparr>userToGroups := updateBucket (userToGroups tx3) (UID usr)
                  \<lparr>userUID = UID usr, GIDs = map GroupGID gs\<rparr>\<rparr>"
                "UID usr" "map GroupGID gs" "previousGIDs c (UID usr)"] r
    by simp
  ultimately show ?thesis using u by simp
qed

lemma UpdateUserEntry_sameBuckets:
  assumes u: "fst (updateUser c (UserDB.extend usr (userDB.fields now))) =
              fst (updateUser c (UserDB.extend usr' (userDB.fields now)))"
             "sameBuckets (snd (updateUser c (UserDB.extend usr (userDB.fields now))))
                          (snd (updateUser c (UserDB.extend usr' (userDB.fields now))))"
      and uid: "UID usr' = UID usr"
  shows "fst (UpdateUserEntry c now usr gs) = fst (UpdateUserEntry c now usr' gs) \<and>
         sameBuckets (snd (UpdateUserEntry c now usr gs)) (snd (UpdateUserEntry c now usr' gs))"
proof -
  let ?prev = "GIDs (fst (getFromBucket zero_userToGroupsDB (userToGroups c) (UID usr)))"
  obtain e1 t1 where u1: "updateUser c (UserDB.extend usr (userDB.fields now)) = (e1, t1)"
    by (cases "updateUser c (UserDB.extend usr (userDB.fields now))")
  obtain e1' t1' where u2: "updateUser c (UserDB.extend usr' (userDB.fields now)) = (e1', t1')"
    by (cases "updateUser c (UserDB.extend usr' (userDB.fields now))")
  have e1: "e1' = e1" and s1: "sameBuckets t1 t1'" using u u1 u2 by simp_all
  obtain e2 t2 where g1: "updateGroups t1 gs = (e2, t2)" by (cases "updateGroups t1 gs")
  obtain e2' t2' where g2: "updateGroups t1' gs = (e2', t2')" by (cases "updateGroups t1' gs")
  have e2: "e2' = e2" and s2: "sameBuckets t2 t2'"
    using sameBuckets_updateGroups [OF s1, of gs] g1 g2 by simp_all
  obtain e3 t3 where m1: "updateUsersAndGroups t2 (UID usr) gs ?prev = (e3, t3)"
    by (cases "updateUsersAndGroups t2 (UID usr) gs ?prev")
  obtain e3' t3' where m2: "updateUsersAndGroups t2' (UID usr) gs ?prev = (e3', t3')"
    by (cases "updateUsersAndGroups t2' (UID usr) gs ?prev")
  have e3: "e3' = e3" and s3: "sameBuckets t3 t3'"
    using sameBuckets_updateUsersAndGroups [OF s2, of "UID usr" gs ?prev] m1 m2 by simp_all
  show ?thesis
    using u1 u2 g1 g2 m1 m2 e1 e2 e3 s3
    by (cases "getFromBucket zero_userToGroupsDB (userToGroups c) (UID usr)")
       (auto simp: UpdateUserEntry_def Update_def Let_def uid split: option.splits)
qed

lemma UserByID_logged [simp]: "UserByID (c\<lparr>logged := l\<rparr>) uid = UserByID c uid"
  by (simp add: UserByID_def)

lemma UserByName_logged [simp]: "UserByName (c\<lparr>logged := l\<rparr>) name = UserByName c name"
  by (simp add: UserByName_def)

text \<open>
  C3. When the cache holds, for the uid of the incoming user, a record with a non-empty
  home_dir H and the incoming home_dir differs from H, then after UpdateUserEntry the
  record stored for the uid has home_dir H, whatever the outcome; when the call commits,
  the lookup by name has home_dir H too and the call has logged the warning followed by
  its debug line; and the call fails or commits exactly as the same call carrying H
  would, with the same buckets.
\<close>

theorem home_dir_sticky:
  assumes "userByID c (UID usr) = Some (Stored existingUser)"
      and "Dir existingUser \<noteq> []"
      and "Dir usr \<noteq> Dir existingUser"
  shows "(\<exists>r. UserByID (snd (UpdateUserEntry c now usr groupContents)) (UID usr) = Inr r \<and>
              Dir r = Dir existingUser) \<and>
         (fst (UpdateUserEntry c now usr groupContents) = None \<longrightarrow>
            (\<exists>r. UserByName (snd (UpdateUserEntry c now usr groupContents)) (Name usr) = Inr r \<and>
                 Dir r = Dir existingUser) \<and>
            logged (snd (UpdateUserEntry c now usr groupContents)) = logged c @
              [(LevelWarning,
                ''User %q already has a homedir. The existing %q one will be kept instead of %q'',
                [S (Name usr), S (Dir existingUser), S (Dir usr)]),
               (LevelDebug, ''Updating entry of user %q (UID: %d)'',
                [S (Name usr), U (UID usr)])]) \<and>
         fst (UpdateUserEntry c now usr groupContents) =
           fst (UpdateUserEntry c now (usr\<lparr>Dir := Dir existingUser\<rparr>) groupContents) \<and>
         sameBuckets (snd (UpdateUserEntry c now usr groupContents))
           (snd (UpdateUserEntry c now (usr\<lparr>Dir := Dir existingUser\<rparr>) groupContents))"
proof -
  let ?U = "UpdateUserEntry c now usr groupContents"
  let ?u = "UserDB.extend usr (userDB.fields now)"
  have k: "keptDir c usr = Dir existingUser"
    using assms by (simp add: keptDir_def)
  have a: "userByID c (UID ?u) = Some (Stored existingUser)" "Dir ?u \<noteq> Dir existingUser"
    using assms by simp_all
  have 1: "\<exists>r. UserByID (snd ?U) (UID usr) = Inr r \<and> Dir r = Dir existingUser"
  proof (cases "fst ?U")
    case None
    then have "?U = (None, snd ?U)" by (metis prod.collapse)
    from UpdateUserEntry_lookups(2) [OF this] show ?thesis by (simp add: k)
  next
    case (Some e)
    then obtain l where "snd ?U = c\<lparr>logged := l\<rparr>"
      using UpdateUserEntry_abort by blast
    then show ?thesis using assms(1) by (simp add: UserByID_def)
  qed
  have 2: "(\<exists>r. UserByName (snd ?U) (Name usr) = Inr r \<and> Dir r = Dir existingUser) \<and>
           logged (snd ?U) = logged c @
              [(LevelWarning,
                ''User %q already has a homedir. The existing %q one will be kept instead of %q'',
                [S (Name usr), S (Dir existingUser), S (Dir usr)]),
               (LevelDebug, ''Updating entry of user %q (UID: %d)'',
                [S (Name usr), U (UID usr)])]"
    if "fst ?U = None"
  proof -
    have run: "?U = (None, snd ?U)" using that by (metis prod.collapse)
    obtain tx1 where t: "updateUser c ?u = (None, tx1)" "logged (snd ?U) = logged tx1"
      using UpdateUserEntry_None_logged [OF run] by blast
    show ?thesis
      using UpdateUserEntry_lookups(1) [OF run]
            updateUser_sticky_logged [OF a(1) assms(2) a(2) t(1)] t(2)
      by (simp add: k)
  qed
  have 3: "fst ?U = fst (UpdateUserEntry c now (usr\<lparr>Dir := Dir existingUser\<rparr>) groupContents) \<and>
           sameBuckets (snd ?U)
             (snd (UpdateUserEntry c now (usr\<lparr>Dir := Dir existingUser\<rparr>) groupContents))"
    using updateUser_sticky [OF a(1) assms(2) a(2)]
    by (intro UpdateUserEntry_sameBuckets) (simp_all add: extend_Dir_update)
  show ?thesis using 1 2 3 by blast
qed

lemmas eval_defs = UpdateUserEntry_def Update_def updateUser_def updateUsersAndGroups_def
  deleteUserFromGroup_def getFromBucket_def updateBucket_def logf_def zero_userDB_def
  zero_groupDB_def zero_userToGroupsDB_def zero_groupToUsersDB_def UserDB.extend_def
  userDB.fields_def Let_def

theorem home_dir_sticky_witness:
  "userByID cacheAlice (UID aliceMoved) = Some (Stored (UserDB.extend alice (userDB.fields 1))) \<and>
   Dir (UserDB.extend alice (userDB.fields 1)) = ''/home/alice'' \<and>
   Dir aliceMoved = ''/tmp/x'' \<and>
   fst (UpdateUserEntry cacheAlice 2 aliceMoved [users, dev]) = None \<and>
   (\<exists>r. UserByID (snd (UpdateUserEntry cacheAlice 2 aliceMoved [users, dev])) 1000 = Inr r \<and>
        Dir r = ''/home/alice'') \<and>
   (\<exists>r. UserByName (snd (UpdateUserEntry cacheAlice 2 aliceMoved [users, dev])) ''alice'' = Inr r \<and>
        Dir r = ''/home/alice'')"
proof -
  let ?old = "UserDB.extend alice (userDB.fields 1)"
  have h1: "userByID cacheAlice (UID aliceMoved) = Some (Stored ?old)"
    by (simp add: cacheAlice_buckets aliceMoved_def alice_def)
  have h2: "Dir ?old \<noteq> []"
    by (simp add: alice_def UserDB.extend_def)
  have h3: "Dir aliceMoved \<noteq> Dir ?old"
    by (simp add: aliceMoved_def alice_def UserDB.extend_def)
  have ok: "fst (UpdateUserEntry cacheAlice 2 aliceMoved [users, dev]) = None"
    by (simp add: eval_defs cacheAlice_buckets aliceMoved_def alice_def users_def dev_def)
  have d: "Dir ?old = ''/home/alice''" "Dir aliceMoved = ''/tmp/x''"
          "UID aliceMoved = 1000" "Name aliceMoved = ''alice''"
    by (simp_all add: aliceMoved_def alice_def UserDB.extend_def)
  show ?thesis
    using home_dir_sticky [OF h1 h2 h3, of 2 "[users, dev]"] h1 ok d by simp
qed

theorem round_trip_counterexample:
  "fst (UpdateUserEntry cacheAlice 2 aliceMoved [users, dev]) = None \<and>
   UserByName (snd (UpdateUserEntry cacheAlice 2 aliceMoved [users, dev])) (Name aliceMoved) =
     Inr (UserDB.extend alice (userDB.fields 2)) \<and>
   UserByID (snd (UpdateUserEntry cacheAlice 2 aliceMoved [users, dev])) (UID aliceMoved) =
     Inr (UserDB.extend alice (userDB.fields 2)) \<and>
   Dir (UserDB.extend alice (userDB.fields 2)) \<noteq> Dir aliceMoved"
  by (simp add: eval_defs UserByName_def UserByID_def cacheAlice_buckets aliceMoved_def
        alice_def users_def dev_def)

theorem round_trip_modulo_home_dir_witness:
  "UpdateUserEntry cacheAlice 2 aliceMoved [users, dev] =
     (None, snd (UpdateUserEntry cacheAlice 2 aliceMoved [users, dev])) \<and>
   (\<exists>r. UserByName (snd (UpdateUserEntry cacheAlice 2 aliceMoved [users, dev])) ''alice'' = Inr r \<and>
        UserByID (snd (UpdateUserEntry cacheAlice 2 aliceMoved [users, dev])) 1000 = Inr r \<and>
        UserDB.truncate r = alice)"
proof -
  have ok: "fst (UpdateUserEntry cacheAlice 2 aliceMoved [users, dev]) = None"
    by (simp add: eval_defs cacheAlice_buckets aliceMoved_def alice_def users_def dev_def)
  then have run: "UpdateUserEntry cacheAlice 2 aliceMoved [users, dev] =
                    (None, snd (UpdateUserEntry cacheAlice 2 aliceMoved [users, dev]))"
    by (metis prod.collapse)
  have k: "aliceMoved\<lparr>Dir := keptDir cacheAlice aliceMoved\<rparr> = alice"
    by (simp add: keptDir_def cacheAlice_buckets aliceMoved_def alice_def UserDB.extend_def)
  have d: "UID aliceMoved = 1000" "Name aliceMoved = ''alice''"
    by (simp_all add: aliceMoved_def alice_def)
  show ?thesis
    using round_trip_modulo_home_dir [OF run] run by (simp add: k d)
qed

text \<open>
  C10. When the cache already holds a record for the uid and UpdateUserEntry commits, the
  record then stored under the uid and under the name has every field of the incoming
  user (name, uid, gid, gecos, shell and the six password-aging fields), the time of the
  call as last_login, and as home_dir the incoming one unless the previous record had a
  non-empty, different home_dir, which is then kept.
\<close>

theorem overwrite_all_but_home_dir:
  assumes "userByID c (UID usr) = Some (Stored existingUser)"
      and "UpdateUserEntry c now usr groupContents = (None, c')"
  shows "\<exists>r. UserByID c' (UID usr) = Inr r \<and> UserByName c' (Name usr) = Inr r \<and>
           Name r = Name usr \<and> UID r = UID usr \<and> GID r = GID usr \<and> Gecos r = Gecos usr \<and>
           Shell r = Shell usr \<and> LastPwdChange r = LastPwdChange usr \<and>
           MinPwdAge r = MinPwdAge usr \<and> MaxPwdAge r = MaxPwdAge usr \<and>
           PwdWarnPeriod r = PwdWarnPeriod usr \<and> PwdInactivity r = PwdInactivity usr \<and>
           ExpirationDate r = ExpirationDate usr \<and> LastLogin r = now \<and>
           Dir r = (if Dir existingUser \<noteq> [] \<and> Dir existingUser \<noteq> Dir usr
                    then Dir existingUser else Dir usr)"
proof -
  have k: "keptDir c usr = (if Dir existingUser \<noteq> [] \<and> Dir existingUser \<noteq> Dir usr
                            then Dir existingUser else Dir usr)"
    using assms(1) by (simp add: keptDir_def)
  show ?thesis
    using UpdateUserEntry_lookups [OF assms(2)]
    by (simp add: k UserDB.extend_def userDB.fields_def)
qed

theorem overwrite_all_but_home_dir_witness:
  "userByID cacheAlice (UID aliceRenewed) = Some (Stored (UserDB.extend alice (userDB.fields 1))) \<and>
   UpdateUserEntry cacheAlice 7 aliceRenewed [dev] =
     (None, snd (UpdateUserEntry cacheAlice 7 aliceRenewed [dev])) \<and>
   (\<exists>r. UserByID (snd (UpdateUserEntry cacheAlice 7 aliceRenewed [dev])) 1000 = Inr r \<and>
        UserByName (snd (UpdateUserEntry cacheAlice 7 aliceRenewed [dev])) ''alice'' = Inr r \<and>
        GID r = 2000 \<and> Gecos r = ''Alice L'' \<and> Shell r = ''/bin/zsh'' \<and> MaxPwdAge r = 90 \<and>
        LastLogin r = 7 \<and> Dir r = ''/home/alice'')"
proof -
  let ?old = "UserDB.extend alice (userDB.fields 1)"
  have h1: "userByID cacheAlice (UID aliceRenewed) = Some (Stored ?old)"
    by (simp add: cacheAlice_buckets aliceRenewed_def alice_def)
  have ok: "fst (UpdateUserEntry cacheAlice 7 aliceRenewed [dev]) = None"
    by (simp add: eval_defs cacheAlice_buckets aliceRenewed_def alice_def dev_def)
  then have run: "UpdateUserEntry cacheAlice 7 aliceRenewed [dev] =
                    (None, snd (UpdateUserEntry cacheAlice 7 aliceRenewed [dev]))"
    by (metis prod.collapse)
  have d: "UID aliceRenewed = 1000" "Name aliceRenewed = ''alice''" "GID aliceRenewed = 2000"
          "Gecos aliceRenewed = ''Alice L''" "Shell aliceRenewed = ''/bin/zsh''"
          "MaxPwdAge aliceRenewed = 90" "Dir aliceRenewed = ''/srv/alice''"
          "Dir alice = ''/home/alice''"
    by (simp_all add: aliceRenewed_def alice_def)
  show ?thesis
    using overwrite_all_but_home_dir [OF h1 run] h1 run by (auto simp: d)
qed

subsection \<open>Conflicting identities\<close>

lemma updateUser_conflict:
  assumes "userByID tx (UID u) = Some (Stored existingUser)"
      and "Name existingUser \<noteq> []" and "Name existingUser \<noteq> Name u"
  shows "updateUser tx u =
           (Some UIDInUse,
            tx\<lparr>logged := logged tx @
                 [(LevelError, ''UID for user %q already in use by user %q'',
                   [S (Name u), S (Name existingUser)])]\<rparr>)"
  using assms by (simp add: updateUser_def logf_def)

lemma updateUser_error_kind:
  assumes "userByID tx (UID u) \<noteq> Some Undecodable" and "fst (updateUser tx u) = Some e"
  shows "e = UIDInUse"
  using assms
  by (auto simp: updateUser_def getFromBucket_def Let_def
           split: option.splits cell.splits if_splits prod.splits)

lemma updateGroups_error_kind:
  assumes "\<forall>k. groupByID tx k \<noteq> Some Undecodable" and "fst (updateGroups tx gs) = Some e"
  shows "\<exists>name. e = GIDInUse name"
  using assms
proof (induction gs arbitrary: tx)
  case Nil
  then show ?case by simp
next
  case (Cons g gs)
  let ?tx = "tx\<lparr>groupByID := updateBucket (groupByID tx) (GroupGID g)
                  \<lparr>groupName = GroupName g, groupGID = GroupGID g\<rparr>,
               groupByName := updateBucket (groupByName tx) (GroupName g)
                  \<lparr>groupName = GroupName g, groupGID = GroupGID g\<rparr>\<rparr>"
  have d: "\<forall>k. groupByID ?tx k \<noteq> Some Undecodable"
    using Cons.prems(1) by (simp add: updateBucket_def)
  show ?case
    using Cons.prems Cons.IH [OF d]
    by (auto simp: getFromBucket_def Let_def split: option.splits cell.splits if_splits)
qed

lemma updateGroups_conflict:
  assumes "g \<in> set gs" and "groupByID tx (GroupGID g) = Some (Stored existingGroup)"
      and "groupName existingGroup \<noteq> []" and "groupName existingGroup \<noteq> GroupName g"
  shows "fst (updateGroups tx gs) \<noteq> None"
  using assms
proof (induction gs arbitrary: tx existingGroup)
  case Nil
  then show ?case by simp
next
  case (Cons h gs)
  show ?case
  proof (cases "fst (updateGroups tx [h]) = None")
    case False
    then show ?thesis
      by (auto simp: getFromBucket_def Let_def split: option.splits cell.splits if_splits)
  next
    case True
    let ?tx = "tx\<lparr>groupByID := updateBucket (groupByID tx) (GroupGID h)
                    \<lparr>groupName = GroupName h, groupGID = GroupGID h\<rparr>,
                 groupByName := updateBucket (groupByName tx) (GroupName h)
                    \<lparr>groupName = GroupName h, groupGID = GroupGID h\<rparr>\<rparr>"
    have step: "updateGroups tx (h # gs) = updateGroups ?tx gs"
      using True
      by (auto simp: getFromBucket_def Let_def split: option.splits cell.splits if_splits)
    have hg: "h \<noteq> g"
      using True Cons.prems(2,3,4)
      by (auto simp: getFromBucket_def Let_def split: option.splits cell.splits if_splits)
    then have mem: "g \<in> set gs" using Cons.prems(1) by simp
    have "\<exists>e'. groupByID ?tx (GroupGID g) = Some (Stored e') \<and>
               groupName e' = groupName existingGroup"
    proof (cases "GroupGID h = GroupGID g")
      case same: True
      then have "groupName existingGroup = GroupName h"
        using True Cons.prems(2,3)
        by (auto simp: getFromBucket_def Let_def split: option.splits cell.splits if_splits)
      then show ?thesis using same by (simp add: updateBucket_def)
    next
      case False
      then show ?thesis using Cons.prems(2) by (simp add: updateBucket_def)
    qed
    then obtain e' where e': "groupByID ?tx (GroupGID g) = Some (Stored e')"
                         "groupName e' = groupName existingGroup"
      by blast
    have "fst (updateGroups ?tx gs) \<noteq> None"
      using Cons.IH [OF mem e'(1)] Cons.prems(3,4) e'(2) by simp
    then show ?thesis using step by simp
  qed
qed

lemma UpdateUserEntry_uid_conflict:
  assumes "userToGroups c (UID usr) \<noteq> Some Undecodable"
      and "userByID c (UID usr) = Some (Stored existingUser)"
      and "Name existingUser \<noteq> []" and "Name existingUser \<noteq> Name usr"
  shows "UpdateUserEntry c now usr gs =
           (Some UIDInUse,
            c\<lparr>logged := logged c @
                 [(LevelError, ''UID for user %q already in use by user %q'',
                   [S (Name usr), S (Name existingUser)])]\<rparr>)"
proof -
  have "updateUser c (UserDB.extend usr (userDB.fields now)) =
           (Some UIDInUse,
            c\<lparr>logged := logged c @
                 [(LevelError, ''UID for user %q already in use by user %q'',
                   [S (Name usr), S (Name existingUser)])]\<rparr>)"
    using updateUser_conflict [of c "UserDB.extend usr (userDB.fields now)" existingUser] assms
    by simp
  then show ?thesis
    using assms(1)
    by (auto simp: UpdateUserEntry_def Update_def getFromBucket_def Let_def
             split: option.splits cell.splits)
qed

lemma UpdateUserEntry_gid_conflict:
  assumes "decodable c"
      and "g \<in> set gs" and "groupByID c (GroupGID g) = Some (Stored existingGroup)"
      and "groupName existingGroup \<noteq> []" and "groupName existingGroup \<noteq> GroupName g"
  shows "\<exists>err. fst (UpdateUserEntry c now usr gs) = Some err \<and> ConflictingIdentity err"
proof -
  let ?u = "UserDB.extend usr (userDB.fields now)"
  have d: "userToGroups c (UID usr) \<noteq> Some Undecodable" "userByID c (UID ?u) \<noteq> Some Undecodable"
          "\<forall>k. groupByID c k \<noteq> Some Undecodable"
    using assms(1) by (simp_all add: decodable_def)
  obtain e1 t1 where u: "updateUser c ?u = (e1, t1)" by (cases "updateUser c ?u")
  have g1: "groupByID t1 = groupByID c"
    using updateUser_frame(1) [of c ?u] u by simp
  obtain e2 t2 where g: "updateGroups t1 gs = (e2, t2)" by (cases "updateGroups t1 gs")
  have e2: "e2 \<noteq> None"
    using updateGroups_conflict [OF assms(2), of t1 existingGroup] assms(3,4,5) g1 g by simp
  show ?thesis
  proof (cases e1)
    case (Some e)
    then have "e = UIDInUse" using updateUser_error_kind [OF d(2), of e] u by simp
    then show ?thesis
      using u Some d(1)
      by (auto simp: UpdateUserEntry_def Update_def getFromBucket_def Let_def
               split: option.splits cell.splits)
  next
    case None
    obtain e where e: "e2 = Some e" using e2 by auto
    then obtain name where "e = GIDInUse name"
      using updateGroups_error_kind [of t1 gs e] d(3) g1 g by auto
    then show ?thesis
      using u None g e d(1)
      by (auto simp: UpdateUserEntry_def Update_def getFromBucket_def Let_def
               split: option.splits cell.splits)
  qed
qed

lemma GroupByID_logged [simp]: "GroupByID (c\<lparr>logged := l\<rparr>) gid = GroupByID c gid"
  by (simp add: GroupByID_def)

lemma UpdateUserEntry_undecodable_groups:
  assumes "userToGroups c (UID usr) = Some Undecodable"
  shows "fst (UpdateUserEntry c now usr gs) = Some UnmarshalError"
  using assms by (simp add: UpdateUserEntry_def Update_def Let_def)

lemma UpdateUserEntry_gid_conflict_fails:
  assumes "g \<in> set gs" and "groupByID c (GroupGID g) = Some (Stored existingGroup)"
      and "groupName existingGroup \<noteq> []" and "groupName existingGroup \<noteq> GroupName g"
  shows "fst (UpdateUserEntry c now usr gs) \<noteq> None"
proof
  assume "fst (UpdateUserEntry c now usr gs) = None"
  then have "UpdateUserEntry c now usr gs = (None, snd (UpdateUserEntry c now usr gs))"
    by (metis prod.collapse)
  then obtain tx1 tx2 where
    u: "updateUser c (UserDB.extend usr (userDB.fields now)) = (None, tx1)" and
    g: "updateGroups tx1 gs = (None, tx2)"
    using UpdateUserEntry_decomp by blast
  have "groupByID tx1 = groupByID c"
    using updateUser_frame(1) [of c "UserDB.extend usr (userDB.fields now)"] u by simp
  then have "fst (updateGroups tx1 gs) \<noteq> None"
    using updateGroups_conflict [OF assms(1), of tx1 existingGroup] assms(2,3,4) by simp
  then show False using g by simp
qed

text \<open>
  C2 (amended). When user_by_id holds, for the incoming UID, a record whose name is
  non-empty and differs from the incoming name, UpdateUserEntry fails, with the
  UID-in-use error unless the group list stored for the UID does not decode; no bucket
  is modified, the lookup of the new name returns what it returned before the call, and
  the record under the UID is the one that was there. When group_by_id holds, for the
  GID of one of the incoming groups, a record whose name is non-empty and differs from
  that group's name, the call fails, with a UID-in-use or GID-in-use error when the
  documents of the cache decode; no bucket is modified and the record under the GID is
  the one that was there.
\<close>

theorem conflicting_identity_aborts:
  "(userByID c (UID usr) = Some (Stored existingUser) \<and>
    Name existingUser \<noteq> [] \<and> Name existingUser \<noteq> Name usr \<longrightarrow>
      (\<exists>err. fst (UpdateUserEntry c now usr groupContents) = Some err \<and>
             (userToGroups c (UID usr) \<noteq> Some Undecodable \<longrightarrow> err = UIDInUse)) \<and>
      sameBuckets (snd (UpdateUserEntry c now usr groupContents)) c \<and>
      UserByName (snd (UpdateUserEntry c now usr groupContents)) (Name usr) =
        UserByName c (Name usr) \<and>
      UserByID (snd (UpdateUserEntry c now usr groupContents)) (UID usr) = Inr existingUser) \<and>
   (groupContent \<in> set groupContents \<and>
    groupByID c (GroupGID groupContent) = Some (Stored existingGroup) \<and>
    groupName existingGroup \<noteq> [] \<and> groupName existingGroup \<noteq> GroupName groupContent \<longrightarrow>
      (\<exists>err. fst (UpdateUserEntry c now usr groupContents) = Some err \<and>
             (decodable c \<longrightarrow> ConflictingIdentity err)) \<and>
      sameBuckets (snd (UpdateUserEntry c now usr groupContents)) c \<and>
      GroupByID (snd (UpdateUserEntry c now usr groupContents)) (GroupGID groupContent) =
        Inr existingGroup)"
proof (intro conjI impI)
  let ?U = "UpdateUserEntry c now usr groupContents"
  assume h: "userByID c (UID usr) = Some (Stored existingUser) \<and>
             Name existingUser \<noteq> [] \<and> Name existingUser \<noteq> Name usr"
  have e: "\<exists>err. fst ?U = Some err \<and>
                 (userToGroups c (UID usr) \<noteq> Some Undecodable \<longrightarrow> err = UIDInUse)"
  proof (cases "userToGroups c (UID usr) = Some Undecodable")
    case True
    then show ?thesis using UpdateUserEntry_undecodable_groups by blast
  next
    case False
    then show ?thesis
      using UpdateUserEntry_uid_conflict [OF False, of existingUser now groupContents] h by simp
  qed
  then obtain err where "fst ?U = Some err" by blast
  then obtain l where l: "snd ?U = c\<lparr>logged := l\<rparr>"
    using UpdateUserEntry_abort by blast
  show "\<exists>err. fst ?U = Some err \<and>
              (userToGroups c (UID usr) \<noteq> Some Undecodable \<longrightarrow> err = UIDInUse)"
    using e .
  show "sameBuckets (snd ?U) c" using l by simp
  show "UserByName (snd ?U) (Name usr) = UserByName c (Name usr)" using l by simp
  show "UserByID (snd ?U) (UID usr) = Inr existingUser"
    using l h by (simp add: UserByID_def)
next
  let ?U = "UpdateUserEntry c now usr groupContents"
  assume h: "groupContent \<in> set groupContents \<and>
             groupByID c (GroupGID groupContent) = Some (Stored existingGroup) \<and>
             groupName existingGroup \<noteq> [] \<and> groupName existingGroup \<noteq> GroupName groupContent"
  have "fst ?U \<noteq> None"
    using UpdateUserEntry_gid_conflict_fails [of groupContent groupContents c existingGroup] h
    by blast
  then obtain err where e: "fst ?U = Some err" by auto
  have k: "ConflictingIdentity err" if "decodable c"
    using UpdateUserEntry_gid_conflict
            [OF that, of groupContent groupContents existingGroup now usr] h e
    by auto
  obtain l where l: "snd ?U = c\<lparr>logged := l\<rparr>"
    using UpdateUserEntry_abort [OF e] by blast
  show "\<exists>err. fst ?U = Some err \<and> (decodable c \<longrightarrow> ConflictingIdentity err)"
    using e k by blast
  show "sameBuckets (snd ?U) c" using l by simp
  show "GroupByID (snd ?U) (GroupGID groupContent) = Inr existingGroup"
    using l h by (simp add: GroupByID_def)
qed

lemma cacheAliceBob_buckets:
  "userByID cacheAliceBob = [1000 \<mapsto> Stored (UserDB.extend alice (userDB.fields 1)),
                             1001 \<mapsto> Stored (UserDB.extend bob (userDB.fields 2))]"
  "userByName cacheAliceBob = [''alice'' \<mapsto> Stored (UserDB.extend alice (userDB.fields 1)),
                               ''bob'' \<mapsto> Stored (UserDB.extend bob (userDB.fields 2))]"
  "groupByID cacheAliceBob = [2000 \<mapsto> Stored \<lparr>groupName = ''dev'', groupGID = 2000\<rparr>,
                              100 \<mapsto> Stored \<lparr>groupName = ''users'', groupGID = 100\<rparr>]"
  "userToGroups cacheAliceBob = [1000 \<mapsto> Stored \<lparr>userUID = 1000, GIDs = [100, 2000]\<rparr>,
                                 1001 \<mapsto> Stored \<lparr>userUID = 1001, GIDs = [100]\<rparr>]"
  "groupToUsers cacheAliceBob = [2000 \<mapsto> Stored \<lparr>groupToUsersGID = 2000, UIDs = [1000]\<rparr>,
                                 100 \<mapsto> Stored \<lparr>groupToUsersGID = 100, UIDs = [1000, 1001]\<rparr>]"
  by (simp_all add: cacheAliceBob_def eval_defs cacheAlice_buckets bob_def users_def fun_upd_twist)

theorem conflicting_identity_counterexample:
  "userByID cacheAliceBob (UID bobAs1000) = Some (Stored (UserDB.extend alice (userDB.fields 1))) \<and>
   Name (UserDB.extend alice (userDB.fields 1)) = ''alice'' \<and> Name bobAs1000 = ''bob'' \<and>
   fst (UpdateUserEntry cacheAliceBob 3 bobAs1000 [users]) = Some UIDInUse \<and>
   UserByName (snd (UpdateUserEntry cacheAliceBob 3 bobAs1000 [users])) (Name bobAs1000) =
     Inr (UserDB.extend bob (userDB.fields 2)) \<and>
   UserByName (snd (UpdateUserEntry cacheAliceBob 3 bobAs1000 [users])) (Name bobAs1000) \<noteq>
     Inl NoDataFoundError"
  by (simp add: eval_defs UserByName_def cacheAliceBob_buckets bobAs1000_def bob_def alice_def
        users_def)

theorem conflicting_identity_aborts_witness:
  "decodable cacheAliceBob \<and>
   fst (UpdateUserEntry cacheAliceBob 3 bobAs1000 [staff]) = Some UIDInUse \<and>
   UserByID (snd (UpdateUserEntry cacheAliceBob 3 bobAs1000 [staff])) 1000 =
     Inr (UserDB.extend alice (userDB.fields 1)) \<and>
   UserByName (snd (UpdateUserEntry cacheAliceBob 3 bobAs1000 [staff])) ''bob'' =
     Inr (UserDB.extend bob (userDB.fields 2)) \<and>
   (\<exists>err. fst (UpdateUserEntry cacheAliceBob 3 alice [dev, staff]) = Some err \<and>
          ConflictingIdentity err) \<and>
   sameBuckets (snd (UpdateUserEntry cacheAliceBob 3 alice [dev, staff])) cacheAliceBob \<and>
   GroupByID (snd (UpdateUserEntry cacheAliceBob 3 alice [dev, staff])) 100 =
     Inr \<lparr>groupName = ''users'', groupGID = 100\<rparr>"
proof -
  have d: "decodable cacheAliceBob"
    by (simp add: decodable_def cacheAliceBob_buckets)
  have u: "userByID cacheAliceBob (UID bobAs1000) =
             Some (Stored (UserDB.extend alice (userDB.fields 1))) \<and>
           Name (UserDB.extend alice (userDB.fields 1)) \<noteq> [] \<and>
           Name (UserDB.extend alice (userDB.fields 1)) \<noteq> Name bobAs1000"
    by (simp add: cacheAliceBob_buckets bobAs1000_def bob_def alice_def)
  have v: "userToGroups cacheAliceBob (UID bobAs1000) \<noteq> Some Undecodable"
    by (simp add: cacheAliceBob_buckets bobAs1000_def bob_def)
  have g: "staff \<in> set [dev, staff] \<and>
           groupByID cacheAliceBob (GroupGID staff) =
             Some (Stored \<lparr>groupName = ''users'', groupGID = 100\<rparr>) \<and>
           groupName \<lparr>groupName = ''users'', groupGID = 100\<rparr> \<noteq> [] \<and>
           groupName \<lparr>groupName = ''users'', groupGID = 100\<rparr> \<noteq> GroupName staff"
    by (simp add: cacheAliceBob_buckets staff_def)
  have b: "UserByName cacheAliceBob ''bob'' = Inr (UserDB.extend bob (userDB.fields 2))"
    by (simp add: UserByName_def getFromBucket_def cacheAliceBob_buckets)
  have n: "UID bobAs1000 = 1000" "Name bobAs1000 = ''bob''" "GroupGID staff = 100"
    by (simp_all add: bobAs1000_def bob_def staff_def)
  note t1 = conflicting_identity_aborts
              [where c = cacheAliceBob and usr = bobAs1000 and now = 3
                 and groupContents = "[staff]"
                 and existingUser = "UserDB.extend alice (userDB.fields 1)"]
  note t2 = conflicting_identity_aborts
              [where c = cacheAliceBob and usr = alice and now = 3
                 and groupContents = "[dev, staff]" and groupContent = staff
                 and existingGroup = "\<lparr>groupName = ''users'', groupGID = 100\<rparr>"]
  have 1: "fst (UpdateUserEntry cacheAliceBob 3 bobAs1000 [staff]) = Some UIDInUse"
    using t1 u v by blast
  have 2: "UserByID (snd (UpdateUserEntry cacheAliceBob 3 bobAs1000 [staff])) (UID bobAs1000) =
             Inr (UserDB.extend alice (userDB.fields 1))"
    using t1 u by blast
  have 3: "UserByName (snd (UpdateUserEntry cacheAliceBob 3 bobAs1000 [staff])) (Name bobAs1000) =
             UserByName cacheAliceBob (Name bobAs1000)"
    using t1 u by blast
  have 4: "\<exists>err. fst (UpdateUserEntry cacheAliceBob 3 alice [dev, staff]) = Some err \<and>
                 ConflictingIdentity err"
    using t2 g d by blast
  have 5: "sameBuckets (snd (UpdateUserEntry cacheAliceBob 3 alice [dev, staff])) cacheAliceBob"
    using t2 g by blast
  have 6: "GroupByID (snd (UpdateUserEntry cacheAliceBob 3 alice [dev, staff])) (GroupGID staff) =
             Inr \<lparr>groupName = ''users'', groupGID = 100\<rparr>"
    using t2 g by blast
  show ?thesis
    using d 1 2 3 4 5 6 b by (simp add: n)
qed

section \<open>Properties of the broker manager\<close>

subsection \<open>Sessions\<close>

text \<open>
  C6. NewSession returns an invalid-broker error and leaves the manager as it was when
  the broker id is unknown; it returns the broker's error and leaves the manager as it
  was when the broker's new_session fails; and when new_session succeeds it returns the
  session id and the encryption key of the broker and records the session id for that
  broker in the session index, changing nothing else.
\<close>

theorem new_session_records_on_success:
  "(brokers m brokerID = None \<longrightarrow>
      NewSession m brokerID username lang =
        (([], [], Some (InvalidBroker (NoBrokerMatching brokerID))), m)) \<and>
   (brokers m brokerID = Some broker \<and>
    newSession broker username lang = (sessionID, encryptionKey, Some err) \<longrightarrow>
      NewSession m brokerID username lang = (([], [], Some err), m)) \<and>
   (brokers m brokerID = Some broker \<and>
    newSession broker username lang = (sessionID, encryptionKey, None) \<longrightarrow>
      NewSession m brokerID username lang =
        ((sessionID, encryptionKey, None),
         m\<lparr>transactionsToBroker := (transactionsToBroker m)(sessionID \<mapsto> broker)\<rparr>))"
  by (simp add: NewSession_def brokerFromID_def)

theorem new_session_records_on_success_witness:
  "NewSession exampleManager ''missing'' ''alice'' ''en_US'' =
     (([], [], Some (InvalidBroker (NoBrokerMatching ''missing''))), exampleManager) \<and>
   NewSession exampleManager ''local'' ''alice'' ''en_US'' =
     (([], [], Some (BrokerFailure ''no session on the local broker'')), exampleManager) \<and>
   fst (NewSession exampleManager ''example-broker'' ''alice'' ''en_US'') =
     (''example-broker-alice'', ''key'', None) \<and>
   transactionsToBroker (snd (NewSession exampleManager ''example-broker'' ''alice'' ''en_US''))
     ''example-broker-alice'' = Some exampleBroker"
proof -
  have a: "brokers exampleManager ''missing'' = None"
    by (simp add: exampleManager_def)
  have b: "brokers exampleManager ''local'' = Some localBroker \<and>
           newSession localBroker ''alice'' ''en_US'' =
             ([], [], Some (BrokerFailure ''no session on the local broker''))"
    by (simp add: exampleManager_def localBroker_def)
  have c: "brokers exampleManager ''example-broker'' = Some exampleBroker \<and>
           newSession exampleBroker ''alice'' ''en_US'' = (''example-broker-alice'', ''key'', None)"
    by (simp add: exampleManager_def exampleBroker_def)
  show ?thesis
    using new_session_records_on_success
            [where m = exampleManager and brokerID = "''missing''" and username = "''alice''"
               and lang = "''en_US''"]
          new_session_records_on_success
            [where m = exampleManager and brokerID = "''local''" and username = "''alice''"
               and lang = "''en_US''" and broker = localBroker and sessionID = "[]"
               and encryptionKey = "[]" and err = "BrokerFailure ''no session on the local broker''"]
          new_session_records_on_success
            [where m = exampleManager and brokerID = "''example-broker''"
               and username = "''alice''" and lang = "''en_US''" and broker = exampleBroker
               and sessionID = "''example-broker-alice''" and encryptionKey = "''key''"]
          a b c
    by simp
qed

text \<open>
  C7 (amended). EndSession returns the error and leaves the manager as it was when no
  broker is found for the session id or when the broker's end_session fails; when
  end_session succeeds it removes the entry of the session id from the session index and
  changes nothing else, and then, for a non-empty session id, BrokerFromSessionID returns
  the no-broker-for-session error, while for the empty session id it still returns the
  local broker.
\<close>

theorem end_session_removes_on_success:
  "(BrokerFromSessionID localBrokerName m sessionID = Inl err \<longrightarrow>
      EndSession localBrokerName m sessionID = (Some err, m)) \<and>
   (BrokerFromSessionID localBrokerName m sessionID = Inr b \<and> endSession b sessionID = Some err \<longrightarrow>
      EndSession localBrokerName m sessionID = (Some err, m)) \<and>
   (BrokerFromSessionID localBrokerName m sessionID = Inr b \<and> endSession b sessionID = None \<longrightarrow>
      EndSession localBrokerName m sessionID =
        (None, m\<lparr>transactionsToBroker := (transactionsToBroker m)(sessionID := None)\<rparr>) \<and>
      (sessionID \<noteq> [] \<longrightarrow>
         BrokerFromSessionID localBrokerName (snd (EndSession localBrokerName m sessionID)) sessionID =
           Inl (NoBrokerForSession sessionID)) \<and>
      (sessionID = [] \<longrightarrow>
         BrokerFromSessionID localBrokerName (snd (EndSession localBrokerName m sessionID)) sessionID =
           Inr b))"
  by (auto simp: EndSession_def BrokerFromSessionID_def brokerFromID_def split: option.splits)

theorem end_session_counterexample:
  "fst (EndSession ''local'' exampleManager []) = None \<and>
   BrokerFromSessionID ''local'' (snd (EndSession ''local'' exampleManager [])) [] =
     Inr localBroker"
  by (simp add: EndSession_def BrokerFromSessionID_def brokerFromID_def exampleManager_def
        localBroker_def)

theorem end_session_removes_on_success_witness:
  "EndSession ''local'' exampleManager ''nobody'' =
     (Some (NoBrokerForSession ''nobody''), exampleManager) \<and>
   EndSession ''local'' exampleManager ''stuck'' = (Some (BrokerFailure ''busy''), exampleManager) \<and>
   fst (EndSession ''local'' exampleManager ''example-broker-bob'') = None \<and>
   BrokerFromSessionID ''local'' (snd (EndSession ''local'' exampleManager ''example-broker-bob''))
     ''example-broker-bob'' = Inl (NoBrokerForSession ''example-broker-bob'')"
proof -
  have a: "BrokerFromSessionID ''local'' exampleManager ''nobody'' =
             Inl (NoBrokerForSession ''nobody'')"
    by (simp add: BrokerFromSessionID_def exampleManager_def)
  have b: "BrokerFromSessionID ''local'' exampleManager ''stuck'' = Inr exampleBroker \<and>
           endSession exampleBroker ''stuck'' = Some (BrokerFailure ''busy'')"
    by (simp add: BrokerFromSessionID_def exampleManager_def exampleBroker_def)
  have c: "BrokerFromSessionID ''local'' exampleManager ''example-broker-bob'' = Inr exampleBroker \<and>
           endSession exampleBroker ''example-broker-bob'' = None"
    by (simp add: BrokerFromSessionID_def exampleManager_def exampleBroker_def)
  have ne: "''example-broker-bob'' \<noteq> []" by simp
  have 1: "EndSession ''local'' exampleManager ''nobody'' =
             (Some (NoBrokerForSession ''nobody''), exampleManager)"
    using end_session_removes_on_success
            [where localBrokerName = "''local''" and m = exampleManager
               and sessionID = "''nobody''" and err = "NoBrokerForSession ''nobody''"] a
    by blast
  have 2: "EndSession ''local'' exampleManager ''stuck'' =
             (Some (BrokerFailure ''busy''), exampleManager)"
    using end_session_removes_on_success
            [where localBrokerName = "''local''" and m = exampleManager
               and sessionID = "''stuck''" and err = "BrokerFailure ''busy''" and b = exampleBroker] b
    by blast
  have 3: "EndSession ''local'' exampleManager ''example-broker-bob'' =
             (None, exampleManager\<lparr>transactionsToBroker :=
                (transactionsToBroker exampleManager)(''example-broker-bob'' := None)\<rparr>)"
      and 4: "BrokerFromSessionID ''local''
                (snd (EndSession ''local'' exampleManager ''example-broker-bob''))
                ''example-broker-bob'' = Inl (NoBrokerForSession ''example-broker-bob'')"
    using end_session_removes_on_success
            [where localBrokerName = "''local''" and m = exampleManager
               and sessionID = "''example-broker-bob''" and b = exampleBroker] c ne
    by blast+
  have "fst (EndSession ''local'' exampleManager ''example-broker-bob'') = None"
    by (simp only: 3 fst_conv)
  with 1 2 4 show ?thesis by blast
qed

text \<open>
  C8. For the empty session id BrokerFromSessionID returns what the registry holds for
  the local broker name, whatever the session index contains, also an entry for the
  empty string.
\<close>

theorem empty_session_is_local_broker:
  "BrokerFromSessionID localBrokerName (m\<lparr>transactionsToBroker := sessions\<rparr>) [] =
     brokerFromID m localBrokerName \<and>
   (brokers m localBrokerName = Some b \<longrightarrow>
      BrokerFromSessionID localBrokerName (m\<lparr>transactionsToBroker := sessions\<rparr>) [] = Inr b)"
  by (simp add: BrokerFromSessionID_def brokerFromID_def)

theorem empty_session_is_local_broker_witness:
  "brokers exampleManager ''local'' = Some localBroker \<and>
   BrokerFromSessionID ''local''
     (exampleManager\<lparr>transactionsToBroker := [[] \<mapsto> exampleBroker]\<rparr>) [] = Inr localBroker"
proof -
  have a: "brokers exampleManager ''local'' = Some localBroker"
    by (simp add: exampleManager_def)
  show ?thesis
    using empty_session_is_local_broker
            [where localBrokerName = "''local''" and m = exampleManager and b = localBroker
               and sessions = "[[] \<mapsto> exampleBroker]"] a
    by blast
qed


subsection \<open>Construction of the manager\<close>











end
